theory Spec2Isabelle
  imports Complex_Main
begin

section \<open>Strings, as the validator reads them\<close>

text \<open>
  A JavaScript string is modelled as a \<^typ>\<open>string\<close>: a list of code units below 256.
  Among those, \<open>String.prototype.trim\<close> and the regular-expression class \<open>\s\<close> treat
  exactly TAB, LF, VT, FF, CR, SPACE and NBSP (0xA0) as white space; \<open>\S\<close> is the
  complement.
\<close>

abbreviation LF :: char where
  "LF \<equiv> CHR 0x0A"

text \<open>The double quote, which a string literal of this theory cannot hold.\<close>

abbreviation DQ :: char where
  "DQ \<equiv> CHR 0x22"

definition is_space :: "char \<Rightarrow> bool" where
  "is_space c = (c \<in> {CHR 0x09, CHR 0x0A, CHR 0x0B, CHR 0x0C, CHR 0x0D, CHR 0x20, CHR 0xA0})"

definition non_space :: "char \<Rightarrow> bool" where
  "non_space c = (\<not> is_space c)"

definition is_digit :: "char \<Rightarrow> bool" where
  "is_digit c = (c \<in> set ''0123456789'')"

text \<open>\<open>s.trim()\<close>: white space removed at both ends.\<close>

definition trim :: "string \<Rightarrow> string" where
  "trim s = rev (dropWhile is_space (rev (dropWhile is_space s)))"

text \<open>
  \<open>s.split(sep)\<close> for a one-character separator: the pieces between the separators,
  empty pieces kept, so the result is never the empty list.
\<close>

fun split :: "char \<Rightarrow> string \<Rightarrow> string list" where
  "split sep [] = [[]]"
| "split sep (c # cs) =
     (if c = sep then [] # split sep cs
      else (c # hd (split sep cs)) # tl (split sep cs))"

text \<open>The decimal digits of a number, as a template literal prints an array index.\<close>

fun show_nat :: "nat \<Rightarrow> string" where
  "show_nat n =
     (if n < 10 then [''0123456789'' ! n]
      else show_nat (n div 10) @ [''0123456789'' ! (n mod 10)])"

declare show_nat.simps [simp del]

section \<open>Constants of the application\<close>

text \<open>
  \<open>VALIDATION_PATTERNS.NODE_ID = /^[a-zA-Z0-9_-]+$/\<close>: one or more characters, each a
  letter, a digit, an underscore or a hyphen.
\<close>

definition node_id_char :: "char \<Rightarrow> bool" where
  "node_id_char c =
     (c \<in> set ''abcdefghijklmnopqrstuvwxyzABCDEFGHIJKLMNOPQRSTUVWXYZ0123456789_-'')"

definition NODE_ID :: "string \<Rightarrow> bool" where
  "NODE_ID s = (s \<noteq> [] \<and> list_all node_id_char s)"

text \<open>
  \<open>VALIDATION_PATTERNS.EDGE_UNWEIGHTED = /^\s*(\S+)\s+(\S+)\s*$/\<close>, as \<open>String.match\<close>
  runs it: the result is the two capture groups, or \<open>None\<close> for \<open>null\<close>. The pattern is
  read left to right, every repetition taking the longest run; since \<open>\s\<close> and \<open>\S\<close> are
  complementary, no shorter run can lead to a match, so backtracking never changes the
  outcome (lemma \<open>EDGE_UNWEIGHTED_iff\<close> below states the match without any search order).
\<close>

definition EDGE_UNWEIGHTED :: "string \<Rightarrow> (string \<times> string) option" where
  "EDGE_UNWEIGHTED s =
     (let r0 = dropWhile is_space s;
          source = takeWhile non_space r0; r1 = dropWhile non_space r0;
          gap = takeWhile is_space r1; r2 = dropWhile is_space r1;
          target = takeWhile non_space r2; r3 = dropWhile non_space r2;
          r4 = dropWhile is_space r3
      in if source \<noteq> [] \<and> gap \<noteq> [] \<and> target \<noteq> [] \<and> r4 = []
         then Some (source, target) else None)"

text \<open>
  The number of the weighted pattern, \<open>(\d+(?:\.\d+)?)\<close>, read at the start of a
  string: the captured text and the rest, or \<open>None\<close> when no digit starts the string.
  The optional group is taken when a dot and at least one digit follow.
\<close>

definition match_number :: "string \<Rightarrow> (string \<times> string) option" where
  "match_number s =
     (let whole = takeWhile is_digit s; r = dropWhile is_digit s
      in if whole = [] then None
         else (case r of
                 c # r' \<Rightarrow>
                   if c = CHR ''.'' \<and> takeWhile is_digit r' \<noteq> []
                   then Some (whole @ c # takeWhile is_digit r', dropWhile is_digit r')
                   else Some (whole, r)
               | [] \<Rightarrow> Some (whole, r)))"

text \<open>
  \<open>VALIDATION_PATTERNS.EDGE_WEIGHTED = /^\s*(\S+)\s+(\S+)\s+(\d+(?:\.\d+)?)\s*$/\<close>: the
  three capture groups, or \<open>None\<close>.
\<close>

definition EDGE_WEIGHTED :: "string \<Rightarrow> (string \<times> string \<times> string) option" where
  "EDGE_WEIGHTED s =
     (let r0 = dropWhile is_space s;
          source = takeWhile non_space r0; r1 = dropWhile non_space r0;
          gap = takeWhile is_space r1; r2 = dropWhile is_space r1;
          target = takeWhile non_space r2; r3 = dropWhile non_space r2;
          gap' = takeWhile is_space r3; r4 = dropWhile is_space r3
      in if source \<noteq> [] \<and> gap \<noteq> [] \<and> target \<noteq> [] \<and> gap' \<noteq> []
         then (case match_number r4 of
                 None \<Rightarrow> None
               | Some (weight, r5) \<Rightarrow>
                   if dropWhile is_space r5 = [] then Some (source, target, weight)
                   else None)
         else None)"

text \<open>\<open>ERROR_MESSAGES\<close>, the entries the modelled code uses.\<close>

definition INVALID_INPUT :: string where
  "INVALID_INPUT = ''Invalid input format. Please check your edge definitions.''"

definition MISSING_SOURCE :: string where
  "MISSING_SOURCE = ''Please specify a start node for this algorithm.''"

definition ALGORITHM_ERROR :: string where
  "ALGORITHM_ERROR = ''An error occurred while running the algorithm.''"

definition EMPTY_GRAPH :: string where
  "EMPTY_GRAPH = ''Please add some edges to create a graph.''"

section \<open>Numbers read from strings\<close>

text \<open>
  A JavaScript number is \<open>NaN\<close> or a value; the value is kept exact (a rational), the
  rounding to a double is not modelled. Rounding maps a non-negative value to a
  non-negative double or, when it is too large, to \<open>Infinity\<close>, which is neither
  negative nor \<open>NaN\<close>; so the two tests made on a weight, \<open>isNaN\<close> and \<open>< 0\<close>, read the
  same on both.
\<close>

datatype js_number = NaN | Num rat

fun digit_value :: "char \<Rightarrow> nat" where
  "digit_value c = of_char c - 48"

definition digits_value :: "string \<Rightarrow> nat" where
  "digits_value ds = foldl (\<lambda>n c. 10 * n + digit_value c) 0 ds"

text \<open>
  The value of the decimal literal with integer digits \<open>ip\<close> and fraction digits \<open>fp\<close>.
\<close>

definition decimal_value :: "string \<Rightarrow> string \<Rightarrow> rat" where
  "decimal_value ip fp = of_nat (digits_value ip) + of_nat (digits_value fp) / 10 ^ length fp"

text \<open>
  An optionally signed decimal literal at the start of a string: digits, optionally a
  dot and more digits (\<open>5\<close>, \<open>5.\<close>, \<open>5.25\<close>, \<open>.25\<close>), with at least one digit. The
  result is the value and the rest of the string. Exponents, radix prefixes and the
  word \<open>Infinity\<close> are outside this fragment; \<open>validateEdgeInput\<close> applies the two
  built-ins below only to the third capture group of \<open>EDGE_WEIGHTED\<close>, which has none.
\<close>

definition read_decimal :: "string \<Rightarrow> (rat \<times> string) option" where
  "read_decimal s =
     (let neg = (s \<noteq> [] \<and> hd s = CHR ''-'');
          u = (if s \<noteq> [] \<and> (hd s = CHR ''-'' \<or> hd s = CHR ''+'') then tl s else s);
          ip = takeWhile is_digit u; r = dropWhile is_digit u;
          dotted = (r \<noteq> [] \<and> hd r = CHR ''.'');
          fp = (if dotted then takeWhile is_digit (tl r) else []);
          rest = (if dotted then dropWhile is_digit (tl r) else r);
          v = decimal_value ip fp
      in if ip = [] \<and> fp = [] then None
         else Some (if neg then - v else v, rest))"

text \<open>
  \<open>parseFloat(x)\<close> for \<open>x\<close> a string or \<open>undefined\<close> (\<open>None\<close>): leading white
  space is skipped and the longest numeric prefix is read; \<open>NaN\<close> when there is none,
  as for \<open>undefined\<close>.
\<close>

definition js_parseFloat :: "string option \<Rightarrow> js_number" where
  "js_parseFloat x =
     (case x of
        None \<Rightarrow> NaN
      | Some s \<Rightarrow>
          (case read_decimal (dropWhile is_space s) of
             None \<Rightarrow> NaN
           | Some (v, rest) \<Rightarrow> Num v))"

text \<open>
  \<open>Number(s)\<close>, which \<open>isNaN\<close> applies to its argument: the trimmed string must be a
  numeric literal as a whole; the empty string converts to 0.
\<close>

definition js_Number :: "string \<Rightarrow> js_number" where
  "js_Number s =
     (let t = trim s
      in if t = [] then Num 0
         else (case read_decimal t of
                 None \<Rightarrow> NaN
               | Some (v, rest) \<Rightarrow> if rest = [] then Num v else NaN))"

text \<open>\<open>isNaN(x)\<close> for \<open>x\<close> a string, or \<open>undefined\<close> (\<open>None\<close>), which converts to \<open>NaN\<close>.\<close>

definition js_isNaN :: "string option \<Rightarrow> bool" where
  "js_isNaN x = (case x of None \<Rightarrow> True | Some s \<Rightarrow> js_Number s = NaN)"

text \<open>\<open>x < 0\<close> on a number: false for \<open>NaN\<close>.\<close>

definition js_negative :: "js_number \<Rightarrow> bool" where
  "js_negative x = (case x of NaN \<Rightarrow> False | Num v \<Rightarrow> v < 0)"

section \<open>The validator\<close>

text \<open>\<open>isValidNodeId\<close>: the argument is a string and matches \<open>NODE_ID\<close>.\<close>

definition isValidNodeId :: "string \<Rightarrow> bool" where
  "isValidNodeId nodeId = NODE_ID nodeId"

text \<open>
  The two messages of the format error, \<open>'Invalid weighted edge format. Expected:
  "node1 node2 weight"'\<close> and \<open>'Invalid edge format. Expected: "node1 node2"'\<close>.
\<close>

definition weighted_format_error :: string where
  "weighted_format_error =
     ''Invalid weighted edge format. Expected: '' @ [DQ] @ ''node1 node2 weight'' @ [DQ]"

definition edge_format_error :: string where
  "edge_format_error = ''Invalid edge format. Expected: '' @ [DQ] @ ''node1 node2'' @ [DQ]"

text \<open>
  The object \<open>validateEdgeInput\<close> returns: \<open>{isValid: false, error}\<close> or
  \<open>{isValid: true, source, target, weight}\<close>, the weight \<open>undefined\<close> (\<open>None\<close>) in
  unweighted mode.
\<close>

datatype edge_validation =
  Invalid string
| Valid string string "js_number option"

definition validateEdgeInput :: "string \<Rightarrow> bool \<Rightarrow> edge_validation" where
  "validateEdgeInput edgeString isWeighted =
     (let trimmed = trim edgeString
      in if trimmed = [] then Invalid ''Edge cannot be empty''
         else
           (case (if isWeighted
                  then map_option (\<lambda>(s, t, w). (s, t, Some w)) (EDGE_WEIGHTED trimmed)
                  else map_option (\<lambda>(s, t). (s, t, None)) (EDGE_UNWEIGHTED trimmed)) of
              None \<Rightarrow>
                Invalid (if isWeighted then weighted_format_error else edge_format_error)
            | Some (source, target, weight) \<Rightarrow>
                if \<not> isValidNodeId source \<or> \<not> isValidNodeId target
                then Invalid ''Invalid node ID format''
                else if source = target
                then Invalid ''Self-loops are not supported''
                else if isWeighted \<and>
                        (js_isNaN weight \<or> js_negative (js_parseFloat weight))
                then Invalid ''Weight must be a non-negative number''
                else Valid source target
                       (if isWeighted then Some (js_parseFloat weight)
                        else None)))"

text \<open>An entry of the returned \<open>edges\<close> array: \<open>{ source, target, weight }\<close>.\<close>

record edge =
  source :: string
  target :: string
  weight :: "js_number option"

text \<open>
  One round of \<open>lines.forEach((line, index) => ...)\<close> in \<open>validateGraphInput\<close>, on the
  three local variables \<open>errors\<close>, \<open>edges\<close> and \<open>edgeSet\<close>; \<open>s\<close>, \<open>t\<close> and \<open>w\<close> are the
  \<open>source\<close>, \<open>target\<close> and \<open>weight\<close> of the validation. The keys of \<open>edgeSet\<close> are the
  template literals \<open>`${source}-${target}`\<close>.
\<close>

definition edge_round ::
  "bool \<Rightarrow> string list \<times> edge list \<times> string set \<Rightarrow> nat \<times> string
     \<Rightarrow> string list \<times> edge list \<times> string set" where
  "edge_round isWeighted acc il =
     (case acc of (errors, edges, edgeSet) \<Rightarrow>
      case il of (index, line) \<Rightarrow>
        (case validateEdgeInput line isWeighted of
           Invalid error \<Rightarrow>
             (errors @ [''Line '' @ show_nat (index + 1) @ '': '' @ error], edges, edgeSet)
         | Valid s t w \<Rightarrow>
             (let edgeKey = s @ ''-'' @ t;
                  reverseEdgeKey = t @ ''-'' @ s
              in if edgeKey \<in> edgeSet \<or> reverseEdgeKey \<in> edgeSet
                 then (errors @
                         [''Line '' @ show_nat (index + 1) @ '': Duplicate edge detected''],
                       edges, edgeSet)
                 else (errors, edges @ [\<lparr>source = s, target = t, weight = w\<rparr>],
                       insert edgeKey edgeSet))))"

text \<open>The whole \<open>forEach\<close>, started on any values of the three variables.\<close>

definition edge_rounds ::
  "bool \<Rightarrow> string list \<times> edge list \<times> string set \<Rightarrow> (nat \<times> string) list
     \<Rightarrow> string list \<times> edge list \<times> string set" where
  "edge_rounds isWeighted acc ils = foldl (edge_round isWeighted) acc ils"

text \<open>
  \<open>input.trim().split('\n').map(line => line.trim()).filter(Boolean)\<close>: the non-blank
  lines, trimmed.
\<close>

definition graph_lines :: "string \<Rightarrow> string list" where
  "graph_lines input = filter (\<lambda>line. line \<noteq> []) (map trim (split LF (trim input)))"

text \<open>The object \<open>validateGraphInput\<close> returns.\<close>

record graph_validation =
  isValid :: bool
  errors :: "string list"
  edges :: "edge list"

definition validateGraphInput :: "string \<Rightarrow> bool \<Rightarrow> graph_validation" where
  "validateGraphInput input isWeighted =
     (if input = [] \<or> trim input = []
      then \<lparr>isValid = False, errors = [EMPTY_GRAPH], edges = []\<rparr>
      else
        (let lines = graph_lines input;
             final = edge_rounds isWeighted ([], [], {}) (enumerate 0 lines)
         in \<lparr>isValid = (length (fst final) = 0),
             errors = fst final,
             edges = fst (snd final)\<rparr>))"

section \<open>The graph state manager\<close>

text \<open>
  A node of the parsed model. \<open>canRunAlgorithm\<close> reads its \<open>id\<close>, the field \<open>node_id\<close>
  here (\<open>id\<close> is the identity function of HOL); whatever else the parser stores in a
  node extends the record.
\<close>

record node =
  node_id :: string

text \<open>
  The object \<open>{ nodes, links, adjList }\<close> that \<open>parseGraphInput\<close> returns. The parser
  (\<open>Hooks/DataFetch\<close>) is not among the sources, so the shape of a link and of an
  adjacency entry is left open; \<open>adjList\<close> is an object keyed by node, \<open>{}\<close> being the
  empty list.
\<close>

record ('l, 'a) graph_model =
  nodes :: "node list"
  links :: "'l list"
  adjList :: "(string \<times> 'a) list"

text \<open>
  The state of the \<open>useGraphState\<close> hook: the model, the configuration and the
  validation state. \<open>parserCalls\<close> is not a state of the hook: it records the arguments
  of every call of \<open>parseGraphInput\<close>, so that a theorem can say whether the parser ran.
\<close>

record ('l, 'a) graph_state = "('l, 'a) graph_model" +
  isDirected :: bool
  isWeighted :: bool
  inputText :: string
  inputErrors :: "string list"
  isValidGraph :: bool
  parserCalls :: "(string \<times> bool \<times> bool) list"

text \<open>
  \<open>parseAndValidateInput(input, directed, weighted)\<close>. The parser is a parameter;
  it returns \<open>None\<close> when it throws, which the \<open>catch\<close> block handles.
  \<open>validateGraphInput\<close> itself cannot throw on a string.
\<close>

definition parseAndValidateInput ::
  "(string \<Rightarrow> bool \<Rightarrow> bool \<Rightarrow> ('l, 'a) graph_model option)
     \<Rightarrow> string \<Rightarrow> bool \<Rightarrow> bool \<Rightarrow> ('l, 'a) graph_state \<Rightarrow> ('l, 'a) graph_state" where
  "parseAndValidateInput parseGraphInput input directed weighted st =
     (let validation = validateGraphInput input weighted
      in if \<not> isValid validation
         then st\<lparr>inputErrors := errors validation, isValidGraph := False,
                 nodes := [], links := [], adjList := []\<rparr>
         else
           (let st1 = st\<lparr>inputErrors := [], isValidGraph := True,
                          parserCalls := parserCalls st @ [(input, directed, weighted)]\<rparr>
            in case parseGraphInput input directed weighted of
                 Some g \<Rightarrow> st1\<lparr>nodes := nodes g, links := links g, adjList := adjList g\<rparr>
               | None \<Rightarrow>
                   st1\<lparr>inputErrors := [INVALID_INPUT], isValidGraph := False,
                       nodes := [], links := [], adjList := []\<rparr>))"

text \<open>
  The effect that runs whenever the input text or a configuration flag has changed.
\<close>

definition inputEffect ::
  "(string \<Rightarrow> bool \<Rightarrow> bool \<Rightarrow> ('l, 'a) graph_model option)
     \<Rightarrow> ('l, 'a) graph_state \<Rightarrow> ('l, 'a) graph_state" where
  "inputEffect parseGraphInput st =
     (if trim (inputText st) \<noteq> []
      then parseAndValidateInput parseGraphInput (inputText st) (isDirected st) (isWeighted st) st
      else st\<lparr>inputErrors := [], isValidGraph := False,
              nodes := [], links := [], adjList := []\<rparr>)"

text \<open>\<open>handleInputChange\<close> stores the new text; the effect then runs on it.\<close>

definition handleInputChange ::
  "(string \<Rightarrow> bool \<Rightarrow> bool \<Rightarrow> ('l, 'a) graph_model option)
     \<Rightarrow> string \<Rightarrow> ('l, 'a) graph_state \<Rightarrow> ('l, 'a) graph_state" where
  "handleInputChange parseGraphInput v st = inputEffect parseGraphInput (st\<lparr>inputText := v\<rparr>)"

text \<open>The state of the first render: the initial values of the \<open>useState\<close> calls.\<close>

definition initial_graph_state :: "('l, 'a) graph_state" where
  "initial_graph_state =
     \<lparr>nodes = [], links = [], adjList = [],
      isDirected = False, isWeighted = False, inputText = [],
      inputErrors = [], isValidGraph = False, parserCalls = []\<rparr>"

text \<open>The object \<open>canRunAlgorithm\<close> returns: \<open>{ canRun, reason }\<close>, the reason optional.\<close>

record eligibility =
  canRun :: bool
  reason :: "string option"

text \<open>
  \<open>canRunAlgorithm(algorithmType, sourceNode = null)\<close>. The source node is a string or
  \<open>null\<close> (\<open>None\<close>); \<open>!sourceNode\<close> holds for \<open>null\<close> and for the empty string.
\<close>

definition canRunAlgorithm ::
  "string \<Rightarrow> string option \<Rightarrow> ('l, 'a) graph_state \<Rightarrow> eligibility" where
  "canRunAlgorithm algorithmType sourceNode st =
     (if \<not> isValidGraph st \<or> length (nodes st) = 0
      then \<lparr>canRun = False, reason = Some EMPTY_GRAPH\<rparr>
      else if algorithmType = ''dfs'' \<or> algorithmType = ''bfs'' \<or> algorithmType = ''dijkstra''
      then (if sourceNode = None \<or> sourceNode = Some []
            then \<lparr>canRun = False, reason = Some MISSING_SOURCE\<rparr>
            else if \<not> list_ex (\<lambda>n. Some (node_id n) = sourceNode) (nodes st)
            then \<lparr>canRun = False, reason = Some ''Source node does not exist in the graph''\<rparr>
            else \<lparr>canRun = True, reason = None\<rparr>)
      else if algorithmType = ''scc''
      then (if \<not> isDirected st
            then \<lparr>canRun = False,
                  reason = Some ''Strongly Connected Components requires a directed graph''\<rparr>
            else \<lparr>canRun = True, reason = None\<rparr>)
      else if algorithmType = ''prims'' \<or> algorithmType = ''kruskals''
      then (if isDirected st
            then \<lparr>canRun = False, reason = Some ''MST algorithms require an undirected graph''\<rparr>
            else if \<not> isWeighted st
            then \<lparr>canRun = False, reason = Some ''MST algorithms require a weighted graph''\<rparr>
            else \<lparr>canRun = True, reason = None\<rparr>)
      else \<lparr>canRun = True, reason = None\<rparr>)"

section \<open>The execution controller\<close>

text \<open>
  The values of the controller: what an algorithm function returns or throws, what
  \<open>options.errorMessage\<close> holds, what the state variables \<open>error\<close> and \<open>result\<close> store.
  \<open>VError\<close> is an error object, by the name of its class. \<open>truthy\<close> is the test of
  \<open>if (x)\<close> and of \<open>x || y\<close>: \<open>undefined\<close>, \<open>null\<close>, \<open>false\<close>, 0, \<open>NaN\<close> and the empty
  string fail it, every object passes.
\<close>

datatype js_value =
  VUndefined
| VNull
| VBool bool
| VNumber js_number
| VString string
| VObject nat
| VError string

fun truthy :: "js_value \<Rightarrow> bool" where
  "truthy VUndefined = False"
| "truthy VNull = False"
| "truthy (VBool b) = b"
| "truthy (VNumber NaN) = False"
| "truthy (VNumber (Num v)) = (v \<noteq> 0)"
| "truthy (VString s) = (s \<noteq> [])"
| "truthy (VObject r) = True"
| "truthy (VError name) = True"

text \<open>
  How an awaited call ends: it returns a value, it throws one, or its promise never
  settles.
\<close>

datatype 'a completion =
  Normal 'a
| Throw js_value
| Pending

text \<open>
  The state of the \<open>useAlgorithmExecution\<close> hook, as the latest calls of the setters
  have left it; \<open>speedrunRef\<close> is the \<open>current\<close> value of the ref.
\<close>

record exec_state =
  isRunning :: bool
  error :: js_value
  result :: js_value
  resultReady :: bool
  speedrunRef :: string

definition initial_exec_state :: exec_state where
  "initial_exec_state =
     \<lparr>isRunning = False, error = VString [], result = VString [], resultReady = False,
      speedrunRef = []\<rparr>"

text \<open>
  The second argument of \<open>executeAlgorithm\<close>. The default \<open>options = {}\<close> replaces
  a missing argument and \<open>undefined\<close>, and nothing else: \<open>null\<close> stays \<open>null\<close>. Any other
  value has a property \<open>errorMessage\<close>, \<open>undefined\<close> when it is missing; the property is
  taken to be a plain one, read without running code (no getter, no proxy).
\<close>

record options =
  errorMessage :: js_value

datatype options_value =
  OptionsUndefined
| OptionsNull
| OptionsObject options

text \<open>
  \<open>options.errorMessage || ERROR_MESSAGES.ALGORITHM_ERROR\<close>, evaluated in the \<open>catch\<close>
  block: reading a property of \<open>null\<close> throws a \<open>TypeError\<close> (\<open>Inl\<close>); otherwise the
  message, or the fallback when the message is falsy (missing, or the empty string).
\<close>

definition error_message :: "options_value \<Rightarrow> js_value + js_value" where
  "error_message options =
     (case options of
        OptionsNull \<Rightarrow> Inl (VError ''TypeError'')
      | OptionsUndefined \<Rightarrow> Inr (VString ALGORITHM_ERROR)
      | OptionsObject opts \<Rightarrow>
          Inr (if truthy (errorMessage opts) then errorMessage opts
               else VString ALGORITHM_ERROR))"

text \<open>
  \<open>executeAlgorithm(algorithmFn, options)\<close>, called through one instance of the
  callback. The guard \<open>if (isRunning)\<close> does not read the state: it reads the value of
  \<open>isRunning\<close> that the instance captured at the render that created it
  (\<open>useCallback(..., [isRunning])\<close>), the first parameter here; the setters act on
  the state \<open>st\<close> of the hook. The algorithm function is awaited: while it runs the
  state of the hook can change (by \<open>setSpeed\<close>, say), so it is modelled as a function
  from the state at its call to its completion and the state at that time. When the
  \<open>catch\<close> block throws, the \<open>finally\<close> block still runs and the exception leaves the
  function. The result is the completion of \<open>executeAlgorithm\<close> itself (of its
  promise) and the final state. Console output and the measured execution time are
  not modelled.
\<close>

definition executeAlgorithm ::
  "bool \<Rightarrow> (exec_state \<Rightarrow> js_value completion \<times> exec_state) \<Rightarrow> options_value \<Rightarrow> exec_state
     \<Rightarrow> unit completion \<times> exec_state" where
  "executeAlgorithm capturedIsRunning algorithmFn options st =
     (if capturedIsRunning then (Normal (), st)
      else
        (let st1 = st\<lparr>error := VString [], result := VString [], resultReady := False,
                       isRunning := True\<rparr>
         in case algorithmFn st1 of
              (Normal algorithmResult, st2) \<Rightarrow>
                (let st3 = (if truthy algorithmResult
                            then st2\<lparr>result := algorithmResult, resultReady := True\<rparr>
                            else st2)
                 in (Normal (), st3\<lparr>isRunning := False, speedrunRef := []\<rparr>))
            | (Throw algorithmError, st2) \<Rightarrow>
                (case error_message options of
                   Inr message \<Rightarrow>
                     (let st3 = st2\<lparr>error := message\<rparr>
                      in (Normal (), st3\<lparr>isRunning := False, speedrunRef := []\<rparr>))
                 | Inl typeError \<Rightarrow>
                     (Throw typeError, st2\<lparr>isRunning := False, speedrunRef := []\<rparr>))
            | (Pending, st2) \<Rightarrow> (Pending, st2)))"







text \<open>
  The two halves of \<open>executeAlgorithm\<close> around its \<open>await\<close>: the state in which the
  algorithm function is called, and what happens once the call has settled.
\<close>

definition run_started :: "exec_state \<Rightarrow> exec_state" where
  "run_started st = st\<lparr>error := VString [], result := VString [], resultReady := False,
                      isRunning := True\<rparr>"

definition run_settled ::
  "options_value \<Rightarrow> js_value completion \<times> exec_state \<Rightarrow> unit completion \<times> exec_state" where
  "run_settled options r =
     (case r of
        (Normal algorithmResult, st2) \<Rightarrow>
          (Normal (),
           (if truthy algorithmResult
            then st2\<lparr>result := algorithmResult, resultReady := True\<rparr>
            else st2)\<lparr>isRunning := False, speedrunRef := []\<rparr>)
      | (Throw algorithmError, st2) \<Rightarrow>
          (case error_message options of
             Inr message \<Rightarrow>
               (Normal (), st2\<lparr>error := message, isRunning := False, speedrunRef := []\<rparr>)
           | Inl typeError \<Rightarrow>
               (Throw typeError, st2\<lparr>isRunning := False, speedrunRef := []\<rparr>))
      | (Pending, st2) \<Rightarrow> (Pending, st2))"







section \<open>Notions used to state the properties\<close>

text \<open>
  The values of \<open>errors\<close>, \<open>edges\<close> and \<open>edgeSet\<close> when the \<open>forEach\<close> of
  \<open>validateGraphInput\<close> reaches index \<open>j\<close>.
\<close>

definition rounds_before :: "bool \<Rightarrow> string \<Rightarrow> nat \<Rightarrow> string list \<times> edge list \<times> string set" where
  "rounds_before weighted input j =
     edge_rounds weighted ([], [], {}) (take j (enumerate 0 (graph_lines input)))"

text \<open>The edge joins \<open>s\<close> and \<open>t\<close>, in either order.\<close>

definition joins :: "edge \<Rightarrow> string \<Rightarrow> string \<Rightarrow> bool" where
  "joins e s t = ((source e = s \<and> target e = t) \<or> (source e = t \<and> target e = s))"

text \<open>The key under which an accepted edge is stored in \<open>edgeSet\<close>.\<close>

definition edge_key :: "edge \<Rightarrow> string" where
  "edge_key e = source e @ ''-'' @ target e"

text \<open>A string of white space, a token (a non-empty run without white space), a run of digits.\<close>

definition blank :: "string \<Rightarrow> bool" where
  "blank s = list_all is_space s"

definition token :: "string \<Rightarrow> bool" where
  "token s = (s \<noteq> [] \<and> list_all non_space s)"

definition digits :: "string \<Rightarrow> bool" where
  "digits s = (s \<noteq> [] \<and> list_all is_digit s)"

text \<open>The language of \<open>\d+(?:\.\d+)?\<close>: digits, or digits, a dot and digits.\<close>

definition number_text :: "string \<Rightarrow> bool" where
  "number_text w =
     (digits (takeWhile is_digit w) \<and>
      (dropWhile is_digit w = [] \<or>
       (hd (dropWhile is_digit w) = CHR ''.'' \<and> digits (tl (dropWhile is_digit w)))))"

text \<open>A graph state with one valid triangle, and a parser that returns a fixed model.\<close>

definition triangle_state :: "(unit, unit) graph_state" where
  "triangle_state =
     \<lparr>nodes = [\<lparr>node_id = ''A''\<rparr>, \<lparr>node_id = ''B''\<rparr>, \<lparr>node_id = ''C''\<rparr>],
      links = [(), (), ()], adjList = [(''A'', ()), (''B'', ()), (''C'', ())],
      isDirected = False, isWeighted = False,
      inputText = ''A B'' @ [LF] @ ''B C'' @ [LF] @ ''C A'',
      inputErrors = [], isValidGraph = True, parserCalls = []\<rparr>"

definition fixed_parser :: "string \<Rightarrow> bool \<Rightarrow> bool \<Rightarrow> (unit, unit) graph_model option" where
  "fixed_parser input directed weighted =
     Some \<lparr>nodes = [\<lparr>node_id = ''A''\<rparr>], links = [()], adjList = [(''A'', ())]\<rparr>"

text \<open>
  Two algorithm functions that leave the state of the hook alone: one returns the
  given value, one throws it.
\<close>

definition returning :: "js_value \<Rightarrow> exec_state \<Rightarrow> js_value completion \<times> exec_state" where
  "returning v st = (Normal v, st)"

definition throwing :: "js_value \<Rightarrow> exec_state \<Rightarrow> js_value completion \<times> exec_state" where
  "throwing e st = (Throw e, st)"



text \<open>
  Two inputs: an edge and its reverse on two lines, and an edge, a blank line and a
  self-loop.
\<close>

definition reversed_pair_input :: string where
  "reversed_pair_input = ''a b'' @ [LF] @ ''b a''"

definition blank_line_input :: string where
  "blank_line_input = ''a b'' @ [LF, LF] @ ''a a''"

text \<open>Two different edges between identifiers with hyphens.\<close>

definition hyphen_input :: string where
  "hyphen_input = ''a-b c'' @ [LF] @ ''a b-c''"

section \<open>Scanning a line\<close>

text \<open>
  How \<open>takeWhile\<close> and \<open>dropWhile\<close> cut a run of characters off a string, for the
  runs the patterns read: white space, tokens and digits.
\<close>

lemma run_split:
  assumes "list_all P xs" and "r = [] \<or> \<not> P (hd r)"
  shows "takeWhile P (xs @ r) = xs" and "dropWhile P (xs @ r) = r"
proof -
  from assms(1) have all: "\<And>x. x \<in> set xs \<Longrightarrow> P x"
    by (simp add: list_all_iff)
  from assms(2) have nil: "takeWhile P r = []" and same: "dropWhile P r = r"
    by (cases r; simp)+
  show "takeWhile P (xs @ r) = xs"
    using all nil by (simp add: takeWhile_append2)
  show "dropWhile P (xs @ r) = r"
    using all same by (simp add: dropWhile_append2)
qed

lemma token_hd: "token a \<Longrightarrow> \<not> is_space (hd (a @ r))"
  by (cases a) (simp_all add: token_def non_space_def)

lemma token_hd': "token a \<Longrightarrow> non_space (hd (a @ r))"
  by (cases a) (simp_all add: token_def)

lemma blank_hd: "blank w \<Longrightarrow> w \<noteq> [] \<Longrightarrow> \<not> non_space (hd (w @ r))"
  by (cases w) (simp_all add: blank_def non_space_def)

lemma blank_hd_or: "blank w \<Longrightarrow> w = [] \<or> \<not> non_space (hd w)"
  by (cases w) (simp_all add: blank_def non_space_def)

lemma blank_drop: "blank w \<Longrightarrow> dropWhile is_space w = []"
  by (simp add: blank_def list_all_iff)

lemma skip_blank: "blank w \<Longrightarrow> token a \<Longrightarrow> dropWhile is_space (w @ a @ r) = a @ r"
  using run_split(2) [of is_space w "a @ r"] by (simp add: blank_def token_hd)

lemma take_blank:
  "blank w \<Longrightarrow> token a \<Longrightarrow> takeWhile is_space (w @ a @ r) = w"
  using run_split(1) [of is_space w "a @ r"] by (simp add: blank_def token_hd)

lemma take_token:
  assumes "token a" "blank w" "w \<noteq> []"
  shows "takeWhile non_space (a @ w @ r) = a" and "dropWhile non_space (a @ w @ r) = w @ r"
proof -
  have "list_all non_space a" using assms(1) by (simp add: token_def)
  moreover have "w @ r = [] \<or> \<not> non_space (hd (w @ r))"
    using blank_hd [OF assms(2,3)] by simp
  ultimately show "takeWhile non_space (a @ w @ r) = a"
    and "dropWhile non_space (a @ w @ r) = w @ r"
    by (rule run_split)+
qed

lemma token_end:
  "token a \<Longrightarrow> blank w \<Longrightarrow> takeWhile non_space (a @ w) = a"
  "token a \<Longrightarrow> blank w \<Longrightarrow> dropWhile non_space (a @ w) = w"
  using run_split [of non_space a w] by (auto simp: token_def dest: blank_hd_or)

lemma EDGE_UNWEIGHTED_match:
  assumes "blank w0" "token a" "blank w1" "w1 \<noteq> []" "token b" "blank w2"
  shows "EDGE_UNWEIGHTED (w0 @ a @ w1 @ b @ w2) = Some (a, b)"
proof -
  have a: "a \<noteq> []" and b: "b \<noteq> []" using assms by (simp_all add: token_def)
  show ?thesis
    unfolding EDGE_UNWEIGHTED_def Let_def
    using assms a b
    by (simp add: skip_blank take_blank take_token token_end blank_drop)
qed

lemma digit_not_space: "is_digit c \<Longrightarrow> \<not> is_space c"
  by (auto simp: is_digit_def is_space_def)

lemma dot_not_space: "\<not> is_space CHR ''.''"
  by (simp add: is_space_def)

lemma dot_not_digit: "\<not> is_digit CHR ''.''"
  by (simp add: is_digit_def)

lemma digits_then_blank:
  assumes "blank w"
  shows "takeWhile is_digit (n @ w) = takeWhile is_digit n"
    and "dropWhile is_digit (n @ w) = dropWhile is_digit n @ w"
proof -
  have w: "takeWhile is_digit w = []" "dropWhile is_digit w = w"
    using assms by (cases w; auto simp: blank_def dest: digit_not_space)+
  show "takeWhile is_digit (n @ w) = takeWhile is_digit n"
    by (induction n) (simp_all add: w)
  show "dropWhile is_digit (n @ w) = dropWhile is_digit n @ w"
    by (induction n) (simp_all add: w)
qed

lemma match_number_unfold:
  "match_number s =
     (if takeWhile is_digit s = [] then None
      else case dropWhile is_digit s of
             [] \<Rightarrow> Some (takeWhile is_digit s, [])
           | c # r' \<Rightarrow>
               if c = CHR ''.'' \<and> takeWhile is_digit r' \<noteq> []
               then Some (takeWhile is_digit s @ c # takeWhile is_digit r', dropWhile is_digit r')
               else Some (takeWhile is_digit s, c # r'))"
  by (cases "dropWhile is_digit s") (simp_all add: match_number_def Let_def del: dropWhile_eq_Nil_conv)

lemma match_number_then_blank:
  assumes "blank w"
  shows "match_number (n @ w) = map_option (\<lambda>(x, r). (x, r @ w)) (match_number n)"
proof -
  define T where "T = takeWhile is_digit n"
  define D where "D = dropWhile is_digit n"
  have nw: "takeWhile is_digit (n @ w) = T" "dropWhile is_digit (n @ w) = D @ w"
    by (simp_all add: T_def D_def digits_then_blank [OF assms])
  have m: "match_number n =
     (if T = [] then None
      else case D of
             [] \<Rightarrow> Some (T, [])
           | c # r' \<Rightarrow>
               if c = CHR ''.'' \<and> takeWhile is_digit r' \<noteq> []
               then Some (T @ c # takeWhile is_digit r', dropWhile is_digit r')
               else Some (T, c # r'))"
    unfolding T_def D_def by (rule match_number_unfold)
  have mw: "match_number (n @ w) =
     (if T = [] then None
      else case D @ w of
             [] \<Rightarrow> Some (T, [])
           | c # r' \<Rightarrow>
               if c = CHR ''.'' \<and> takeWhile is_digit r' \<noteq> []
               then Some (T @ c # takeWhile is_digit r', dropWhile is_digit r')
               else Some (T, c # r'))"
    unfolding nw [symmetric] by (rule match_number_unfold)
  show ?thesis
  proof (cases D)
    case Nil
    have "c \<noteq> CHR ''.''" if "w = c # r'" for c r'
      using that assms by (auto simp: blank_def dot_not_space)
    with Nil show ?thesis
      unfolding m mw by (cases w) simp_all
  next
    case (Cons c r')
    then show ?thesis
      unfolding m mw by (simp add: digits_then_blank [OF assms])
  qed
qed

lemma takeWhile_digits: "takeWhile is_digit n = [] \<or> digits (takeWhile is_digit n)"
  by (auto simp: digits_def list_all_iff dest: set_takeWhileD)

lemma match_number_whole:
  "match_number n = Some (x, []) \<longleftrightarrow> number_text n \<and> x = n"
proof -
  define T where "T = takeWhile is_digit n"
  define D where "D = dropWhile is_digit n"
  have n: "n = T @ D"
    by (simp add: T_def D_def)
  have T: "T = [] \<or> digits T"
    unfolding T_def by (rule takeWhile_digits)
  have m: "match_number n =
     (if T = [] then None
      else case D of
             [] \<Rightarrow> Some (T, [])
           | c # r' \<Rightarrow>
               if c = CHR ''.'' \<and> takeWhile is_digit r' \<noteq> []
               then Some (T @ c # takeWhile is_digit r', dropWhile is_digit r')
               else Some (T, c # r'))"
    unfolding T_def D_def by (rule match_number_unfold)
  have nt: "number_text n \<longleftrightarrow> digits T \<and> (D = [] \<or> (hd D = CHR ''.'' \<and> digits (tl D)))"
    unfolding T_def D_def by (rule number_text_def)
  show ?thesis
  proof (cases D)
    case Nil
    with n T show ?thesis
      unfolding m nt by (auto simp: digits_def)
  next
    case (Cons c r')
    show ?thesis
    proof (cases "list_all is_digit r'")
      case True
      then have tk: "takeWhile is_digit r' = r'" and dk: "dropWhile is_digit r' = []"
        by (simp_all add: list_all_iff)
      have "match_number n =
          (if T = [] then None
           else if c = CHR ''.'' \<and> r' \<noteq> [] then Some (T @ c # r', [])
           else Some (T, c # r'))"
        unfolding m Cons by (simp add: tk dk del: takeWhile_eq_all_conv dropWhile_eq_Nil_conv)
      with Cons n T True show ?thesis
        unfolding nt by (auto simp: digits_def)
    next
      case False
      then have "dropWhile is_digit r' \<noteq> []"
        by (simp add: list_all_iff)
      with Cons n T False show ?thesis
        unfolding m nt by (auto simp: digits_def)
    qed
  qed
qed

lemma match_number_rest:
  assumes "match_number n = Some (x, r)"
  shows "n = x @ r"
proof -
  define T where "T = takeWhile is_digit n"
  define D where "D = dropWhile is_digit n"
  have n: "n = T @ D"
    by (simp add: T_def D_def)
  have m: "match_number n =
     (if T = [] then None
      else case D of
             [] \<Rightarrow> Some (T, [])
           | c # r' \<Rightarrow>
               if c = CHR ''.'' \<and> takeWhile is_digit r' \<noteq> []
               then Some (T @ c # takeWhile is_digit r', dropWhile is_digit r')
               else Some (T, c # r'))"
    unfolding T_def D_def by (rule match_number_unfold)
  show ?thesis
  proof (cases D)
    case Nil
    with assms n show ?thesis
      unfolding m by (auto split: if_splits)
  next
    case (Cons c r')
    have "r' = takeWhile is_digit r' @ dropWhile is_digit r'"
      by simp
    with assms n Cons show ?thesis
      unfolding m by (auto split: if_splits)
  qed
qed

lemma match_number_text:
  assumes "match_number s = Some (x, r)"
  shows "number_text x"
proof -
  define T where "T = takeWhile is_digit s"
  have T: "T = [] \<or> digits T"
    unfolding T_def by (rule takeWhile_digits)
  have all: "\<And>c. c \<in> set T \<Longrightarrow> is_digit c"
    unfolding T_def by (auto dest: set_takeWhileD)
  have tT: "takeWhile is_digit (T @ u) = T @ takeWhile is_digit u"
    and dT: "dropWhile is_digit (T @ u) = dropWhile is_digit u" for u
    using all by (simp_all add: takeWhile_append2 dropWhile_append2)
  have self: "takeWhile is_digit T = T" "dropWhile is_digit T = []"
    using all by simp_all
  have plain: "number_text T" if "T \<noteq> []"
    using that T by (simp add: number_text_def self del: takeWhile_eq_all_conv)
  have dotted: "number_text (T @ CHR ''.'' # takeWhile is_digit r')"
    if "T \<noteq> []" "takeWhile is_digit r' \<noteq> []" for r'
    using that T takeWhile_digits [of r']
    by (simp add: number_text_def tT dT dot_not_digit)
  from assms plain dotted show ?thesis
    unfolding match_number_unfold T_def [symmetric]
    by (auto split: if_splits list.splits)
qed

lemma number_text_parts:
  assumes "number_text w"
  obtains ip where "digits ip" "w = ip"
  | ip fp where "digits ip" "digits fp" "w = ip @ CHR ''.'' # fp"
proof -
  have w: "w = takeWhile is_digit w @ dropWhile is_digit w"
    by simp
  show ?thesis
  proof (cases "dropWhile is_digit w")
    case Nil
    with assms w that(1) [of w] show ?thesis
      by (simp add: number_text_def)
  next
    case (Cons c r')
    with assms have "digits (takeWhile is_digit w)" "c = CHR ''.''" "digits r'"
      by (simp_all add: number_text_def)
    moreover from w Cons have "w = takeWhile is_digit w @ c # r'"
      by simp
    ultimately show ?thesis
      using that(2) by blast
  qed
qed

lemma digits_non_space: "digits ds \<Longrightarrow> list_all non_space ds"
  by (auto simp: digits_def list_all_iff non_space_def dest: digit_not_space)

lemma number_text_token: "number_text w \<Longrightarrow> token w"
  by (erule number_text_parts)
    (auto simp: token_def digits_def list_all_iff non_space_def dot_not_space
      dest: digit_not_space)

lemma trim_token:
  assumes "token w"
  shows "trim w = w"
proof -
  from assms have ne: "w \<noteq> []" and all: "\<And>c. c \<in> set w \<Longrightarrow> \<not> is_space c"
    by (auto simp: token_def list_all_iff non_space_def)
  from ne all have "dropWhile is_space w = w"
    by (cases w) simp_all
  moreover from ne all have "dropWhile is_space (rev w) = rev w"
    by (cases "rev w") (auto simp: in_set_conv_decomp dest!: arg_cong [where f = set])
  ultimately show ?thesis
    by (simp add: trim_def)
qed

lemma digits_run:
  assumes "digits ds" and "u = [] \<or> \<not> is_digit (hd u)"
  shows "takeWhile is_digit (ds @ u) = ds" and "dropWhile is_digit (ds @ u) = u"
  using assms run_split [of is_digit ds u] by (simp_all add: digits_def)

lemma digits_hd: "digits ds \<Longrightarrow> is_digit (hd (ds @ u))"
  by (cases ds) (simp_all add: digits_def)

lemma decimal_value_nonneg: "0 \<le> decimal_value ip fp"
  by (simp add: decimal_value_def)

lemma read_decimal_number:
  assumes "number_text w"
  shows "\<exists>v. 0 \<le> v \<and> read_decimal w = Some (v, [])"
  using assms
proof (cases rule: number_text_parts)
  case (1 ip)
  then have ne: "w \<noteq> []" and hd: "is_digit (hd w)"
    using digits_hd [of ip "[]"] by (simp_all add: digits_def)
  then have sign: "hd w \<noteq> CHR ''-''" "hd w \<noteq> CHR ''+''"
    by (auto simp: is_digit_def)
  have tk: "takeWhile is_digit w = w" and dk: "dropWhile is_digit w = []"
    using 1 digits_run [of ip "[]"] by simp_all
  show ?thesis
    unfolding read_decimal_def Let_def
    using ne sign by (simp add: tk dk decimal_value_nonneg del: takeWhile_eq_all_conv dropWhile_eq_Nil_conv)
next
  case (2 ip fp)
  then have ne: "w \<noteq> []" and hd: "is_digit (hd w)"
    using digits_hd [of ip "CHR ''.'' # fp"] by (simp_all add: digits_def)
  then have sign: "hd w \<noteq> CHR ''-''" "hd w \<noteq> CHR ''+''"
    by (auto simp: is_digit_def)
  have tk: "takeWhile is_digit w = ip" and dk: "dropWhile is_digit w = CHR ''.'' # fp"
    using 2 digits_run [of ip "CHR ''.'' # fp"] by (simp_all add: dot_not_digit)
  have tf: "takeWhile is_digit fp = fp" and df: "dropWhile is_digit fp = []"
    using 2 digits_run [of fp "[]"] by simp_all
  have ip: "ip \<noteq> []" using 2 by (simp add: digits_def)
  show ?thesis
    unfolding read_decimal_def Let_def
    using ne sign ip
    by (simp add: tk dk tf df decimal_value_nonneg del: takeWhile_eq_all_conv dropWhile_eq_Nil_conv)
qed

lemma number_text_not_NaN:
  assumes "number_text w"
  shows "\<not> js_isNaN (Some w)" and "\<not> js_negative (js_parseFloat (Some w))"
proof -
  from read_decimal_number [OF assms] obtain v where v: "0 \<le> v" "read_decimal w = Some (v, [])"
    by blast
  have t: "token w" using assms by (rule number_text_token)
  then have tr: "trim w = w" by (rule trim_token)
  from t have ne: "w \<noteq> []" by (simp add: token_def)
  from t have dr: "dropWhile is_space w = w"
    using skip_blank [of "[]" w "[]"] by (simp add: blank_def)
  show "\<not> js_isNaN (Some w)"
    using v ne by (simp add: js_isNaN_def js_Number_def tr)
  show "\<not> js_negative (js_parseFloat (Some w))"
    using v by (simp add: js_parseFloat_def js_negative_def dr)
qed

lemma EDGE_WEIGHTED_number:
  assumes "EDGE_WEIGHTED s = Some (a, b, w)"
  shows "number_text w"
  using assms
  by (auto simp: EDGE_WEIGHTED_def Let_def split: if_splits option.splits
      dest: match_number_text)

lemma token_last: "token b \<Longrightarrow> \<not> is_space (last (x @ b))"
  by (cases b rule: rev_cases) (simp_all add: token_def non_space_def)

lemma trim_pad:
  assumes "blank p" "blank q" "core \<noteq> []" "\<not> is_space (hd core)" "\<not> is_space (last core)"
  shows "trim (p @ core @ q) = core"
proof -
  have "dropWhile is_space (p @ core @ q) = core @ q"
    using assms run_split(2) [of is_space p "core @ q"] by (simp add: blank_def)
  moreover have "dropWhile is_space (rev q @ rev core) = rev core"
    using assms run_split(2) [of is_space "rev q" "rev core"]
    by (simp add: blank_def hd_rev)
  ultimately show ?thesis
    by (simp add: trim_def)
qed

lemma trim_blank: "blank s \<Longrightarrow> trim s = []"
  by (simp add: trim_def blank_drop del: dropWhile_eq_Nil_conv)

lemma suffix_of_token:
  assumes "token n" "n = x @ r" "blank w"
  shows "dropWhile is_space (r @ w) = [] \<longleftrightarrow> r = []"
proof (cases r)
  case Nil
  with assms show ?thesis by (simp add: blank_drop)
next
  case (Cons c r')
  with assms have "\<not> is_space c"
    by (simp add: token_def non_space_def)
  with Cons show ?thesis by simp
qed

lemma EDGE_WEIGHTED_match:
  assumes "blank w0" "token a" "blank w1" "w1 \<noteq> []" "token b" "blank w2" "w2 \<noteq> []"
    "token n" "blank w3"
  shows "EDGE_WEIGHTED (w0 @ a @ w1 @ b @ w2 @ n @ w3) =
     (if number_text n then Some (a, b, n) else None)"
proof -
  have ne: "a \<noteq> []" "b \<noteq> []" using assms by (simp_all add: token_def)
  have r0: "dropWhile is_space (w0 @ a @ w1 @ b @ w2 @ n @ w3) = a @ w1 @ b @ w2 @ n @ w3"
    using assms by (simp add: skip_blank)
  have s1: "takeWhile non_space (a @ w1 @ b @ w2 @ n @ w3) = a"
    and r1: "dropWhile non_space (a @ w1 @ b @ w2 @ n @ w3) = w1 @ b @ w2 @ n @ w3"
    using assms by (simp_all add: take_token)
  have g1: "takeWhile is_space (w1 @ b @ w2 @ n @ w3) = w1"
    and r2: "dropWhile is_space (w1 @ b @ w2 @ n @ w3) = b @ w2 @ n @ w3"
    using assms by (simp_all add: take_blank skip_blank)
  have t1: "takeWhile non_space (b @ w2 @ n @ w3) = b"
    and r3: "dropWhile non_space (b @ w2 @ n @ w3) = w2 @ n @ w3"
    using assms by (simp_all add: take_token)
  have g2: "takeWhile is_space (w2 @ n @ w3) = w2"
    and r4: "dropWhile is_space (w2 @ n @ w3) = n @ w3"
    using assms take_blank [of w2 n w3] skip_blank [of w2 n w3] by simp_all
  have scan: "EDGE_WEIGHTED (w0 @ a @ w1 @ b @ w2 @ n @ w3) =
      (case match_number (n @ w3) of
         None \<Rightarrow> None
       | Some (x, r5) \<Rightarrow>
           if dropWhile is_space r5 = [] then Some (a, b, x) else None)"
    unfolding EDGE_WEIGHTED_def Let_def r0 s1 r1 g1 r2 t1 r3 g2 r4
    using assms ne by simp
  show ?thesis
  proof (cases "match_number n")
    case None
    then have "\<not> number_text n"
      using match_number_whole [of n n] by simp
    with None show ?thesis
      unfolding scan by (simp add: match_number_then_blank [OF assms(9)])
  next
    case (Some xr)
    obtain x r where xr: "xr = (x, r)" by (cases xr)
    have n: "n = x @ r"
      using Some xr by (simp add: match_number_rest)
    have rest: "dropWhile is_space (r @ w3) = [] \<longleftrightarrow> r = []"
      using assms(8) n assms(9) by (rule suffix_of_token)
    have whole: "number_text n \<longleftrightarrow> r = []"
      using Some xr n match_number_whole [of n n] by auto
    have mw: "match_number (n @ w3) = Some (x, r @ w3)"
      using Some xr by (simp add: match_number_then_blank [OF assms(9)])
    have "x = n" if "r = []"
      using that n by simp
    then show ?thesis
      unfolding scan mw using rest whole
      by (simp del: dropWhile_eq_Nil_conv)
  qed
qed



text \<open>
  The two edge patterns as regular languages, with no search order: the matcher
  returns the captures \<open>a\<close> and \<open>b\<close> (and the number \<open>n\<close>) exactly when the string is
  white space, the token \<open>a\<close>, white space, the token \<open>b\<close> (white space and the number
  \<open>n\<close>), white space, the inner runs of white space not empty. So the captures of a
  string are unique, and reading every repetition greedily loses no match.
\<close>

lemma blank_takeWhile: "blank (takeWhile is_space s)"
  by (auto simp: blank_def list_all_iff dest: set_takeWhileD)

lemma token_takeWhile: "takeWhile non_space s \<noteq> [] \<Longrightarrow> token (takeWhile non_space s)"
  by (auto simp: token_def list_all_iff dest: set_takeWhileD)

lemma blank_if_dropped: "dropWhile is_space s = [] \<Longrightarrow> blank s"
  by (simp add: blank_def list_all_iff)

lemma EDGE_UNWEIGHTED_parts:
  assumes "EDGE_UNWEIGHTED s = Some (a, b)"
  shows "\<exists>w0 w1 w2. blank w0 \<and> token a \<and> blank w1 \<and> w1 \<noteq> [] \<and> token b \<and> blank w2 \<and>
           s = w0 @ a @ w1 @ b @ w2"
proof -
  define w0 where "w0 = takeWhile is_space s"
  define r0 where "r0 = dropWhile is_space s"
  define r1 where "r1 = dropWhile non_space r0"
  define w1 where "w1 = takeWhile is_space r1"
  define r2 where "r2 = dropWhile is_space r1"
  define r3 where "r3 = dropWhile non_space r2"
  have m: "EDGE_UNWEIGHTED s =
      (if takeWhile non_space r0 \<noteq> [] \<and> w1 \<noteq> [] \<and> takeWhile non_space r2 \<noteq> [] \<and>
          dropWhile is_space r3 = []
       then Some (takeWhile non_space r0, takeWhile non_space r2) else None)"
    unfolding EDGE_UNWEIGHTED_def Let_def w0_def r0_def r1_def w1_def r2_def r3_def ..
  from assms have a: "a = takeWhile non_space r0" "a \<noteq> []"
    and b: "b = takeWhile non_space r2" "b \<noteq> []"
    and w1: "w1 \<noteq> []" and r3: "dropWhile is_space r3 = []"
    unfolding m by (auto split: if_splits)
  have "s = w0 @ r0" by (simp add: w0_def r0_def)
  also have "r0 = a @ r1" by (simp add: a r1_def)
  also have "r1 = w1 @ r2" by (simp add: w1_def r2_def)
  also have "r2 = b @ r3" by (simp add: b r3_def)
  finally have "s = w0 @ a @ w1 @ b @ r3" by simp
  moreover have "blank w0" "blank w1"
    unfolding w0_def w1_def by (rule blank_takeWhile)+
  moreover have "token a" "token b"
    using a b by (simp_all add: token_takeWhile)
  moreover have "blank r3"
    using r3 by (rule blank_if_dropped)
  ultimately show ?thesis
    using w1 by blast
qed

lemma EDGE_UNWEIGHTED_iff:
  "EDGE_UNWEIGHTED s = Some (a, b) \<longleftrightarrow>
     (\<exists>w0 w1 w2. blank w0 \<and> token a \<and> blank w1 \<and> w1 \<noteq> [] \<and> token b \<and> blank w2 \<and>
        s = w0 @ a @ w1 @ b @ w2)"
proof
  assume "EDGE_UNWEIGHTED s = Some (a, b)"
  then show "\<exists>w0 w1 w2. blank w0 \<and> token a \<and> blank w1 \<and> w1 \<noteq> [] \<and> token b \<and> blank w2 \<and>
      s = w0 @ a @ w1 @ b @ w2"
    by (rule EDGE_UNWEIGHTED_parts)
next
  assume "\<exists>w0 w1 w2. blank w0 \<and> token a \<and> blank w1 \<and> w1 \<noteq> [] \<and> token b \<and> blank w2 \<and>
      s = w0 @ a @ w1 @ b @ w2"
  then show "EDGE_UNWEIGHTED s = Some (a, b)"
    by (auto simp: EDGE_UNWEIGHTED_match)
qed

lemma EDGE_WEIGHTED_parts:
  assumes "EDGE_WEIGHTED s = Some (a, b, n)"
  shows "\<exists>w0 w1 w2 w3. blank w0 \<and> token a \<and> blank w1 \<and> w1 \<noteq> [] \<and> token b \<and>
           blank w2 \<and> w2 \<noteq> [] \<and> number_text n \<and> blank w3 \<and>
           s = w0 @ a @ w1 @ b @ w2 @ n @ w3"
proof -
  define w0 where "w0 = takeWhile is_space s"
  define r0 where "r0 = dropWhile is_space s"
  define r1 where "r1 = dropWhile non_space r0"
  define w1 where "w1 = takeWhile is_space r1"
  define r2 where "r2 = dropWhile is_space r1"
  define r3 where "r3 = dropWhile non_space r2"
  define w2 where "w2 = takeWhile is_space r3"
  define r4 where "r4 = dropWhile is_space r3"
  have m: "EDGE_WEIGHTED s =
      (if takeWhile non_space r0 \<noteq> [] \<and> w1 \<noteq> [] \<and> takeWhile non_space r2 \<noteq> [] \<and> w2 \<noteq> []
       then (case match_number r4 of
               None \<Rightarrow> None
             | Some (x, r5) \<Rightarrow>
                 if dropWhile is_space r5 = []
                 then Some (takeWhile non_space r0, takeWhile non_space r2, x) else None)
       else None)"
    unfolding EDGE_WEIGHTED_def Let_def w0_def r0_def r1_def w1_def r2_def r3_def w2_def r4_def ..
  from assms obtain r5 where a: "a = takeWhile non_space r0" "a \<noteq> []"
    and b: "b = takeWhile non_space r2" "b \<noteq> []"
    and w1: "w1 \<noteq> []" and w2: "w2 \<noteq> []"
    and n: "match_number r4 = Some (n, r5)" and r5: "dropWhile is_space r5 = []"
    unfolding m by (auto split: if_splits option.splits)
  have "s = w0 @ r0" by (simp add: w0_def r0_def)
  also have "r0 = a @ r1" by (simp add: a r1_def)
  also have "r1 = w1 @ r2" by (simp add: w1_def r2_def)
  also have "r2 = b @ r3" by (simp add: b r3_def)
  also have "r3 = w2 @ r4" by (simp add: w2_def r4_def)
  also have "r4 = n @ r5" using n by (rule match_number_rest)
  finally have "s = w0 @ a @ w1 @ b @ w2 @ n @ r5" by simp
  moreover have "blank w0" "blank w1" "blank w2"
    unfolding w0_def w1_def w2_def by (rule blank_takeWhile)+
  moreover have "token a" "token b"
    using a b by (simp_all add: token_takeWhile)
  moreover have "number_text n"
    using n by (rule match_number_text)
  moreover have "blank r5"
    using r5 by (rule blank_if_dropped)
  ultimately show ?thesis
    using w1 w2 by blast
qed

lemma EDGE_WEIGHTED_iff:
  "EDGE_WEIGHTED s = Some (a, b, n) \<longleftrightarrow>
     (\<exists>w0 w1 w2 w3. blank w0 \<and> token a \<and> blank w1 \<and> w1 \<noteq> [] \<and> token b \<and>
        blank w2 \<and> w2 \<noteq> [] \<and> number_text n \<and> blank w3 \<and>
        s = w0 @ a @ w1 @ b @ w2 @ n @ w3)"
proof
  assume "EDGE_WEIGHTED s = Some (a, b, n)"
  then show "\<exists>w0 w1 w2 w3. blank w0 \<and> token a \<and> blank w1 \<and> w1 \<noteq> [] \<and> token b \<and>
      blank w2 \<and> w2 \<noteq> [] \<and> number_text n \<and> blank w3 \<and>
      s = w0 @ a @ w1 @ b @ w2 @ n @ w3"
    by (rule EDGE_WEIGHTED_parts)
next
  assume "\<exists>w0 w1 w2 w3. blank w0 \<and> token a \<and> blank w1 \<and> w1 \<noteq> [] \<and> token b \<and>
      blank w2 \<and> w2 \<noteq> [] \<and> number_text n \<and> blank w3 \<and>
      s = w0 @ a @ w1 @ b @ w2 @ n @ w3"
  then show "EDGE_WEIGHTED s = Some (a, b, n)"
    by (auto simp: EDGE_WEIGHTED_match number_text_token)
qed

text \<open>The texts of \<open>\d+(?:\.\d+)?\<close> are the digit strings with an optional decimal part.\<close>

lemma digits_takeWhile: "digits ds \<Longrightarrow> takeWhile is_digit (ds @ CHR ''.'' # u) = ds"
  "digits ds \<Longrightarrow> dropWhile is_digit (ds @ CHR ''.'' # u) = CHR ''.'' # u"
  using digits_run [of ds "CHR ''.'' # u"] by (simp_all add: dot_not_digit)

lemma number_text_iff:
  "number_text w \<longleftrightarrow>
     (\<exists>ip. digits ip \<and> w = ip) \<or> (\<exists>ip fp. digits ip \<and> digits fp \<and> w = ip @ CHR ''.'' # fp)"
proof
  assume "number_text w"
  then show "(\<exists>ip. digits ip \<and> w = ip) \<or>
      (\<exists>ip fp. digits ip \<and> digits fp \<and> w = ip @ CHR ''.'' # fp)"
    by (cases rule: number_text_parts) blast+
next
  assume "(\<exists>ip. digits ip \<and> w = ip) \<or>
      (\<exists>ip fp. digits ip \<and> digits fp \<and> w = ip @ CHR ''.'' # fp)"
  then show "number_text w"
  proof
    assume "\<exists>ip. digits ip \<and> w = ip"
    then have d: "digits w" by blast
    then have "takeWhile is_digit w = w" "dropWhile is_digit w = []"
      using digits_run [of w "[]"] by simp_all
    with d show ?thesis
      by (simp add: number_text_def del: takeWhile_eq_all_conv dropWhile_eq_Nil_conv)
  next
    assume "\<exists>ip fp. digits ip \<and> digits fp \<and> w = ip @ CHR ''.'' # fp"
    then obtain ip fp where "digits ip" "digits fp" "w = ip @ CHR ''.'' # fp"
      by blast
    then show ?thesis
      by (simp add: number_text_def digits_takeWhile)
  qed
qed

section \<open>Validating one line\<close>




lemma format_error_not_weight_error [simp]:
  "weighted_format_error \<noteq> ''Weight must be a non-negative number''"
  "edge_format_error \<noteq> ''Weight must be a non-negative number''"
  by (simp_all add: weighted_format_error_def edge_format_error_def)

text \<open>
  The weight test itself is live: it holds for a negative and for a non-numeric
  weight, and for \<open>undefined\<close>. No line reaches it with such a weight.
\<close>

lemma weight_check_live:
  "js_negative (js_parseFloat (Some ''-5'')) \<and> js_isNaN (Some ''abc'') \<and> js_isNaN None"
  by code_simp

text \<open>
  Claim C10. In weighted mode \<open>validateEdgeInput\<close> never returns the error
  \<open>Weight must be a non-negative number\<close>: whatever the weighted pattern captures as
  the weight is digits with an optional decimal part, which \<open>isNaN\<close> accepts and
  \<open>parseFloat\<close> reads as a non-negative number. A line of three tokens whose third
  token is not of that form (a negative or a non-numeric weight) fails the pattern and
  is rejected with the weighted format error.
\<close>

theorem weight_error_unreachable:
  "validateEdgeInput line True \<noteq> Invalid ''Weight must be a non-negative number'' \<and>
   (\<forall>a b w. EDGE_WEIGHTED (trim line) = Some (a, b, w) \<longrightarrow>
      number_text w \<and> \<not> js_isNaN (Some w) \<and> \<not> js_negative (js_parseFloat (Some w))) \<and>
   (blank w0 \<and> token a \<and> blank w1 \<and> w1 \<noteq> [] \<and> token b \<and> blank w2 \<and> w2 \<noteq> [] \<and>
    token n \<and> \<not> number_text n \<and> blank w3 \<longrightarrow>
      validateEdgeInput (w0 @ a @ w1 @ b @ w2 @ n @ w3) True = Invalid weighted_format_error)"
proof -
  have unreachable: "validateEdgeInput line True \<noteq> Invalid ''Weight must be a non-negative number''"
  proof (cases "EDGE_WEIGHTED (trim line)")
    case None
    then show ?thesis
      by (simp add: validateEdgeInput_def Let_def)
  next
    case (Some m)
    obtain a b w where m: "m = (a, b, w)" by (cases m)
    with Some have "number_text w" by (simp add: EDGE_WEIGHTED_number)
    then have "\<not> js_isNaN (Some w)" "\<not> js_negative (js_parseFloat (Some w))"
      by (simp_all add: number_text_not_NaN)
    with Some m show ?thesis
      by (simp add: validateEdgeInput_def Let_def)
  qed
  have captured: "number_text w \<and> \<not> js_isNaN (Some w) \<and> \<not> js_negative (js_parseFloat (Some w))"
    if "EDGE_WEIGHTED (trim line) = Some (a, b, w)" for a b w
    using EDGE_WEIGHTED_number [OF that] by (simp add: number_text_not_NaN)
  have malformed: "validateEdgeInput (w0 @ a @ w1 @ b @ w2 @ n @ w3) True =
      Invalid weighted_format_error"
    if h: "blank w0 \<and> token a \<and> blank w1 \<and> w1 \<noteq> [] \<and> token b \<and> blank w2 \<and> w2 \<noteq> [] \<and>
      token n \<and> \<not> number_text n \<and> blank w3"
  proof -
    define core where "core = a @ w1 @ b @ w2 @ n"
    have core: "core \<noteq> []" "\<not> is_space (hd core)" "\<not> is_space (last core)"
      using h token_hd [of a "w1 @ b @ w2 @ n"] token_last [of n "a @ w1 @ b @ w2"]
      by (simp_all add: core_def token_def)
    have "trim (w0 @ core @ w3) = core"
      using h core by (simp add: trim_pad)
    then have tr: "trim (w0 @ a @ w1 @ b @ w2 @ n @ w3) = core"
      by (simp add: core_def)
    have "EDGE_WEIGHTED ([] @ a @ w1 @ b @ w2 @ n @ []) = None"
      using h by (subst EDGE_WEIGHTED_match) (simp_all add: blank_def)
    then have "EDGE_WEIGHTED core = None"
      by (simp add: core_def)
    with core(1) show ?thesis
      unfolding validateEdgeInput_def tr Let_def by simp
  qed
  from unreachable captured malformed show ?thesis
    by blast
qed

theorem weight_error_unreachable_witness:
  "EDGE_WEIGHTED (trim ''a b 2.5'') = Some (''a'', ''b'', ''2.5'') \<and>
   number_text ''2.5'' \<and> \<not> js_isNaN (Some ''2.5'') \<and>
   \<not> js_negative (js_parseFloat (Some ''2.5'')) \<and>
   token ''a'' \<and> token ''b'' \<and> blank '' '' \<and> token ''-5'' \<and> \<not> number_text ''-5'' \<and>
   validateEdgeInput ''a b -5'' True = Invalid weighted_format_error"
proof -
  have m: "EDGE_WEIGHTED (trim ''a b 2.5'') = Some (''a'', ''b'', ''2.5'')"
    by code_simp
  have h: "blank []" "token ''a''" "token ''b''" "blank '' ''" "token ''-5''"
    "\<not> number_text ''-5''"
    by code_simp+
  from weight_error_unreachable [of "''a b 2.5''" "[]" "''a''" "'' ''" "''b''" "'' ''" "''-5''" "[]"]
    m h
  show ?thesis by simp
qed

section \<open>Validating the whole input\<close>

text \<open>
  \<open>validateGraphInput\<close> on an input with a non-blank line is the loop run over all
  lines; the state of the loop after one more line is one more round.
\<close>

lemma trim_Nil: "trim [] = []"
  by (simp add: trim_def)

lemma graph_lines_blank: "trim input = [] \<Longrightarrow> graph_lines input = []"
  by (simp add: graph_lines_def trim_Nil)

lemma validateGraphInput_empty:
  "trim input = [] \<Longrightarrow>
     validateGraphInput input weighted = \<lparr>isValid = False, errors = [EMPTY_GRAPH], edges = []\<rparr>"
  by (simp add: validateGraphInput_def)

lemma validateGraphInput_rounds:
  assumes "trim input \<noteq> []"
  shows "validateGraphInput input weighted =
     \<lparr>isValid = (fst (rounds_before weighted input (length (graph_lines input))) = []),
      errors = fst (rounds_before weighted input (length (graph_lines input))),
      edges = fst (snd (rounds_before weighted input (length (graph_lines input))))\<rparr>"
proof -
  from assms have "input \<noteq> []"
    by (auto simp: trim_Nil)
  with assms show ?thesis
    by (simp add: validateGraphInput_def rounds_before_def Let_def)
qed

lemma rounds_before_0: "rounds_before weighted input 0 = ([], [], {})"
  by (simp add: rounds_before_def edge_rounds_def)

lemma rounds_before_Suc:
  assumes "j < length (graph_lines input)"
  shows "rounds_before weighted input (Suc j) =
     edge_round weighted (rounds_before weighted input j) (j, graph_lines input ! j)"
proof -
  from assms have "take (Suc j) (enumerate 0 (graph_lines input)) =
      take j (enumerate 0 (graph_lines input)) @ [(j, graph_lines input ! j)]"
    by (simp add: take_Suc_conv_app_nth nth_enumerate_eq)
  then show ?thesis
    by (simp add: rounds_before_def edge_rounds_def)
qed

lemma edge_round_Invalid:
  assumes "validateEdgeInput line weighted = Invalid err"
  shows "edge_round weighted (errs, es, ks) (i, line) =
     (errs @ [''Line '' @ show_nat (i + 1) @ '': '' @ err], es, ks)"
  using assms by (simp add: edge_round_def)

lemma edge_round_Valid:
  assumes "validateEdgeInput line weighted = Valid s t w"
  shows "edge_round weighted (errs, es, ks) (i, line) =
     (if s @ ''-'' @ t \<in> ks \<or> t @ ''-'' @ s \<in> ks
      then (errs @ [''Line '' @ show_nat (i + 1) @ '': Duplicate edge detected''], es, ks)
      else (errs, es @ [\<lparr>source = s, target = t, weight = w\<rparr>], insert (s @ ''-'' @ t) ks))"
  using assms by (simp add: edge_round_def Let_def)

text \<open>Each round adds one error or one edge, and nothing else changes.\<close>

lemma edge_round_cases:
  obtains (error) msg where
      "edge_round weighted (errs, es, ks) (i, line) = (errs @ [msg], es, ks)"
  | (accept) s t w where
      "validateEdgeInput line weighted = Valid s t w"
      "s @ ''-'' @ t \<notin> ks" "t @ ''-'' @ s \<notin> ks"
      "edge_round weighted (errs, es, ks) (i, line) =
         (errs, es @ [\<lparr>source = s, target = t, weight = w\<rparr>], insert (s @ ''-'' @ t) ks)"
proof (cases "validateEdgeInput line weighted")
  case (Invalid err)
  then show ?thesis
    using error by (simp add: edge_round_Invalid)
next
  case (Valid s t w)
  show ?thesis
  proof (cases "s @ ''-'' @ t \<in> ks \<or> t @ ''-'' @ s \<in> ks")
    case True
    with Valid show ?thesis
      using error by (simp add: edge_round_Valid)
  next
    case False
    with Valid show ?thesis
      using accept [of s t w] by (simp add: edge_round_Valid)
  qed
qed

lemma joins_key: "joins e s t \<Longrightarrow> edge_key e = s @ ''-'' @ t \<or> edge_key e = t @ ''-'' @ s"
  by (auto simp: joins_def edge_key_def)

lemma joins_new:
  "joins \<lparr>source = s, target = t, weight = w\<rparr> s' t' \<longleftrightarrow> (s = s' \<and> t = t') \<or> (s = t' \<and> t = s')"
  by (simp add: joins_def)

lemma no_joining_edge:
  assumes "s @ ''-'' @ t \<notin> edge_key ` set es" "t @ ''-'' @ s \<notin> edge_key ` set es"
  shows "filter (\<lambda>e. joins e s t) es = []" and "filter (\<lambda>e. joins e t s) es = []"
  using assms by (auto simp: filter_empty_conv dest!: joins_key) (metis imageI)+

text \<open>
  What every round keeps: \<open>edgeSet\<close> holds the keys of the accepted edges, no two
  accepted edges join the same two nodes, and every line so far gave one error or one
  edge.
\<close>

lemma edge_round_invariant:
  assumes "ks = edge_key ` set es"
    and "\<forall>s t. length (filter (\<lambda>e. joins e s t) es) \<le> 1"
    and "edge_round weighted (errs, es, ks) (i, line) = (errs', es', ks')"
  shows "ks' = edge_key ` set es'"
    and "\<forall>s t. length (filter (\<lambda>e. joins e s t) es') \<le> 1"
    and "length errs' + length es' = Suc (length errs + length es)"
    and "\<exists>more. errs' = errs @ more"
    and "\<exists>more. es' = es @ more"
proof -
  have "ks' = edge_key ` set es' \<and> (\<forall>s t. length (filter (\<lambda>e. joins e s t) es') \<le> 1) \<and>
      length errs' + length es' = Suc (length errs + length es) \<and>
      (\<exists>more. errs' = errs @ more) \<and> (\<exists>more. es' = es @ more)"
  proof (cases rule: edge_round_cases [of weighted errs es ks i line])
    case (error msg)
    with assms show ?thesis by simp
  next
    case (accept s t w)
    have none: "filter (\<lambda>e. joins e s t) es = []" "filter (\<lambda>e. joins e t s) es = []"
      using accept(2,3) assms(1) by (simp_all add: no_joining_edge)
    have single: "length (filter (\<lambda>e. joins e s' t') (es @ [\<lparr>source = s, target = t, weight = w\<rparr>])) \<le> 1"
      for s' t'
      using none assms(2) by (auto simp: joins_new)
    from accept(4) assms(3) have "errs' = errs" "es' = es @ [\<lparr>source = s, target = t, weight = w\<rparr>]"
      "ks' = insert (s @ ''-'' @ t) ks"
      by simp_all
    with assms(1) single show ?thesis
      by (simp add: edge_key_def)
  qed
  then show "ks' = edge_key ` set es'"
    and "\<forall>s t. length (filter (\<lambda>e. joins e s t) es') \<le> 1"
    and "length errs' + length es' = Suc (length errs + length es)"
    and "\<exists>more. errs' = errs @ more"
    and "\<exists>more. es' = es @ more"
    by blast+
qed

lemma rounds_invariant:
  assumes "j \<le> length (graph_lines input)"
    and "rounds_before weighted input j = (errs, es, ks)"
  shows "ks = edge_key ` set es"
    and "\<forall>s t. length (filter (\<lambda>e. joins e s t) es) \<le> 1"
    and "length errs + length es = j"
proof -
  have "ks = edge_key ` set es \<and> (\<forall>s t. length (filter (\<lambda>e. joins e s t) es) \<le> 1) \<and>
      length errs + length es = j"
    using assms
  proof (induction j arbitrary: errs es ks)
    case 0
    then show ?case by (simp add: rounds_before_0)
  next
    case (Suc j)
    obtain errs0 es0 ks0 where prev: "rounds_before weighted input j = (errs0, es0, ks0)"
      by (cases "rounds_before weighted input j") auto
    from Suc.prems have j: "j < length (graph_lines input)" by simp
    with Suc.IH [OF _ prev] have inv: "ks0 = edge_key ` set es0"
      "\<forall>s t. length (filter (\<lambda>e. joins e s t) es0) \<le> 1" "length errs0 + length es0 = j"
      by simp_all
    have step: "edge_round weighted (errs0, es0, ks0) (j, graph_lines input ! j) = (errs, es, ks)"
      using Suc.prems(2) prev by (simp add: rounds_before_Suc [OF j])
    from edge_round_invariant(1-3) [OF inv(1,2) step] inv(3) show ?case
      by simp
  qed
  then show "ks = edge_key ` set es"
    and "\<forall>s t. length (filter (\<lambda>e. joins e s t) es) \<le> 1"
    and "length errs + length es = j"
    by blast+
qed

lemma rounds_grow:
  assumes "j \<le> k" and "k \<le> length (graph_lines input)"
  shows "\<exists>more. fst (rounds_before weighted input k) = fst (rounds_before weighted input j) @ more"
    and "\<exists>more. fst (snd (rounds_before weighted input k)) =
           fst (snd (rounds_before weighted input j)) @ more"
proof -
  have "(\<exists>more. fst (rounds_before weighted input k) = fst (rounds_before weighted input j) @ more) \<and>
      (\<exists>more. fst (snd (rounds_before weighted input k)) =
           fst (snd (rounds_before weighted input j)) @ more)"
    using assms
  proof (induction k rule: dec_induct)
    case base
    then show ?case by simp
  next
    case (step n)
    obtain errs es ks where prev: "rounds_before weighted input n = (errs, es, ks)"
      by (cases "rounds_before weighted input n") auto
    obtain errs' es' ks' where
      next_: "edge_round weighted (errs, es, ks) (n, graph_lines input ! n) = (errs', es', ks')"
      by (cases "edge_round weighted (errs, es, ks) (n, graph_lines input ! n)") auto
    from step.prems have n: "n < length (graph_lines input)" by simp
    then have le: "n \<le> length (graph_lines input)" by simp
    note inv = rounds_invariant(1,2) [OF le prev]
    from edge_round_invariant(4,5) [OF inv next_]
    obtain m1 m2 where "errs' = errs @ m1" "es' = es @ m2"
      by blast
    moreover from step.IH le obtain m3 m4 where
      "errs = fst (rounds_before weighted input j) @ m3"
      "es = fst (snd (rounds_before weighted input j)) @ m4"
      using prev by auto
    ultimately show ?case
      using prev next_ by (simp add: rounds_before_Suc [OF n])
  qed
  then show "\<exists>more. fst (rounds_before weighted input k) = fst (rounds_before weighted input j) @ more"
    and "\<exists>more. fst (snd (rounds_before weighted input k)) =
           fst (snd (rounds_before weighted input j)) @ more"
    by blast+
qed

lemma edge_round_keys_grow:
  "snd (snd acc) \<subseteq> snd (snd (edge_round weighted acc il))"
proof -
  obtain errs es ks where acc: "acc = (errs, es, ks)" by (cases acc)
  obtain i line where il: "il = (i, line)" by (cases il)
  show ?thesis
    unfolding acc il
    by (cases rule: edge_round_cases [of weighted errs es ks i line]) auto
qed

lemma keys_grow:
  assumes "j \<le> k" and "k \<le> length (graph_lines input)"
  shows "snd (snd (rounds_before weighted input j)) \<subseteq> snd (snd (rounds_before weighted input k))"
  using assms
proof (induction k rule: dec_induct)
  case base
  show ?case by simp
next
  case (step n)
  then have n: "n < length (graph_lines input)" by simp
  from step n edge_round_keys_grow [of "rounds_before weighted input n" weighted
      "(n, graph_lines input ! n)"]
  show ?case
    by (auto simp: rounds_before_Suc [OF n])
qed

text \<open>
  Once a valid line has had its round, \<open>edgeSet\<close> holds its key or its reverse key:
  the round added the key unless one of the two was there already.
\<close>

lemma key_after_valid_line:
  assumes "i < length (graph_lines input)"
    and "validateEdgeInput (graph_lines input ! i) weighted = Valid a b w"
  shows "a @ ''-'' @ b \<in> snd (snd (rounds_before weighted input (Suc i))) \<or>
         b @ ''-'' @ a \<in> snd (snd (rounds_before weighted input (Suc i)))"
proof -
  obtain errs es ks where prev: "rounds_before weighted input i = (errs, es, ks)"
    by (cases "rounds_before weighted input i") auto
  show ?thesis
    unfolding rounds_before_Suc [OF assms(1)] prev edge_round_Valid [OF assms(2)]
    by auto
qed

lemma repeated_line_round:
  assumes "i < j" and "j < length (graph_lines input)"
    and "validateEdgeInput (graph_lines input ! i) weighted = Valid a b w'"
    and "validateEdgeInput (graph_lines input ! j) weighted = Valid s t w"
    and "(s = a \<and> t = b) \<or> (s = b \<and> t = a)"
  shows "rounds_before weighted input (Suc j) =
     (fst (rounds_before weighted input j) @
        [''Line '' @ show_nat (j + 1) @ '': Duplicate edge detected''],
      snd (rounds_before weighted input j))"
proof -
  obtain errs es ks where prev: "rounds_before weighted input j = (errs, es, ks)"
    by (cases "rounds_before weighted input j") auto
  from assms(1,2) have i: "i < length (graph_lines input)" and le: "Suc i \<le> j"
    "j \<le> length (graph_lines input)"
    by simp_all
  from key_after_valid_line [OF i assms(3)] keys_grow [OF le, of weighted] prev
  have "a @ ''-'' @ b \<in> ks \<or> b @ ''-'' @ a \<in> ks"
    by auto
  with assms(5) have "s @ ''-'' @ t \<in> ks \<or> t @ ''-'' @ s \<in> ks"
    by auto
  then show ?thesis
    using prev by (simp add: rounds_before_Suc [OF assms(2)] edge_round_Valid [OF assms(4)])
qed

text \<open>An error added by a round is among the returned errors, and the input is not valid.\<close>

lemma round_error_reported:
  assumes "j < length (graph_lines input)"
    and "rounds_before weighted input (Suc j) =
       (fst (rounds_before weighted input j) @ [msg], rest)"
  shows "msg \<in> set (errors (validateGraphInput input weighted))"
    and "\<not> isValid (validateGraphInput input weighted)"
proof -
  let ?n = "length (graph_lines input)"
  from assms(1) have ne: "trim input \<noteq> []"
    using graph_lines_blank [of input] by auto
  note v = validateGraphInput_rounds [OF ne, of weighted]
  from assms(1) have le: "Suc j \<le> ?n" by simp
  from rounds_grow(1) [OF le order_refl, of weighted]
  obtain more where "fst (rounds_before weighted input ?n) =
      fst (rounds_before weighted input (Suc j)) @ more"
    by blast
  then have errs: "fst (rounds_before weighted input ?n) =
      fst (rounds_before weighted input j) @ msg # more"
    by (simp add: assms(2))
  show "msg \<in> set (errors (validateGraphInput input weighted))"
    unfolding v using errs by simp
  show "\<not> isValid (validateGraphInput input weighted)"
    unfolding v using errs by simp
qed

text \<open>A line that joins the nodes of an edge accepted before it adds the duplicate error.\<close>

lemma duplicate_round:
  assumes "j < length (graph_lines input)"
    and "validateEdgeInput (graph_lines input ! j) weighted = Valid s t w"
    and "e \<in> set (fst (snd (rounds_before weighted input j)))"
    and "joins e s t"
  shows "rounds_before weighted input (Suc j) =
     (fst (rounds_before weighted input j) @
        [''Line '' @ show_nat (j + 1) @ '': Duplicate edge detected''],
      snd (rounds_before weighted input j))"
proof -
  obtain errs es ks where prev: "rounds_before weighted input j = (errs, es, ks)"
    by (cases "rounds_before weighted input j") auto
  from assms(1) have "j \<le> length (graph_lines input)" by simp
  from rounds_invariant(1) [OF this prev] have ks: "ks = edge_key ` set es" .
  from assms(3) prev have "e \<in> set es" by simp
  with joins_key [OF assms(4)] ks have "s @ ''-'' @ t \<in> ks \<or> t @ ''-'' @ s \<in> ks"
    by (metis imageI)
  then show ?thesis
    using prev by (simp add: rounds_before_Suc [OF assms(1)] edge_round_Valid [OF assms(2)])
qed

lemma duplicate_reported:
  assumes "j < length (graph_lines input)"
    and "validateEdgeInput (graph_lines input ! j) weighted = Valid s t w"
    and "e \<in> set (fst (snd (rounds_before weighted input j)))"
    and "joins e s t"
  shows "''Line '' @ show_nat (j + 1) @ '': Duplicate edge detected''
           \<in> set (errors (validateGraphInput input weighted))"
    and "\<not> isValid (validateGraphInput input weighted)"
    and "length (filter (\<lambda>e'. joins e' s t) (edges (validateGraphInput input weighted))) = 1"
proof -
  let ?n = "length (graph_lines input)"
  let ?msg = "''Line '' @ show_nat (j + 1) @ '': Duplicate edge detected''"
  from assms(1) have ne: "trim input \<noteq> []"
    using graph_lines_blank [of input] by auto
  note v = validateGraphInput_rounds [OF ne, of weighted]
  from assms(1) have le: "Suc j \<le> ?n" "j \<le> ?n" by simp_all
  from rounds_grow(1) [OF le(1) order_refl, of weighted]
  obtain more where "fst (rounds_before weighted input ?n) =
      fst (rounds_before weighted input (Suc j)) @ more"
    by blast
  then have errs: "fst (rounds_before weighted input ?n) =
      fst (rounds_before weighted input j) @ ?msg # more"
    by (simp add: duplicate_round [OF assms])
  show "?msg \<in> set (errors (validateGraphInput input weighted))"
    unfolding v using errs by simp
  show "\<not> isValid (validateGraphInput input weighted)"
    unfolding v using errs by simp
  from rounds_grow(2) [OF le(2) order_refl, of weighted]
  obtain more' where "fst (snd (rounds_before weighted input ?n)) =
      fst (snd (rounds_before weighted input j)) @ more'"
    by blast
  with assms(3) have "e \<in> set (fst (snd (rounds_before weighted input ?n)))"
    by simp
  with assms(4) have "filter (\<lambda>e'. joins e' s t) (fst (snd (rounds_before weighted input ?n))) \<noteq> []"
    by (auto simp: filter_empty_conv)
  moreover
  obtain errs' es' ks' where fin: "rounds_before weighted input ?n = (errs', es', ks')"
    by (cases "rounds_before weighted input ?n") auto
  from rounds_invariant(2) [OF order_refl fin]
  have "length (filter (\<lambda>e'. joins e' s t) (fst (snd (rounds_before weighted input ?n)))) \<le> 1"
    using fin by simp
  ultimately show "length (filter (\<lambda>e'. joins e' s t) (edges (validateGraphInput input weighted))) = 1"
    unfolding v by (cases "filter (\<lambda>e'. joins e' s t) (fst (snd (rounds_before weighted input ?n)))") simp_all
qed

text \<open>
  Claim C3. Line \<open>j\<close> of the non-blank lines is valid by itself and names the nodes
  \<open>s\<close> and \<open>t\<close>. If an earlier line is valid by itself and names the same two nodes,
  in this order or the reverse, then the round of line \<open>j\<close> adds the error
  \<open>Line j+1: Duplicate edge detected\<close> and leaves \<open>edges\<close> and \<open>edgeSet\<close> as they were,
  the error is among the returned errors, and the input is not valid. The same holds
  if an edge accepted before line \<open>j\<close> joins \<open>s\<close> and \<open>t\<close>, in either order; the
  returned edges then hold exactly one edge that joins \<open>s\<close> and \<open>t\<close>: the earlier one.
  Nothing here depends on the graph being undirected.
\<close>

theorem duplicate_edge_rejected:
  assumes "j < length (graph_lines input)"
    and "validateEdgeInput (graph_lines input ! j) weighted = Valid s t w"
  shows "(\<forall>i a b w'.
            i < j \<and> validateEdgeInput (graph_lines input ! i) weighted = Valid a b w' \<and>
            ((s = a \<and> t = b) \<or> (s = b \<and> t = a)) \<longrightarrow>
            rounds_before weighted input (Suc j) =
              (fst (rounds_before weighted input j) @
                 [''Line '' @ show_nat (j + 1) @ '': Duplicate edge detected''],
               snd (rounds_before weighted input j)) \<and>
            ''Line '' @ show_nat (j + 1) @ '': Duplicate edge detected''
              \<in> set (errors (validateGraphInput input weighted)) \<and>
            \<not> isValid (validateGraphInput input weighted)) \<and>
         (\<forall>e. e \<in> set (fst (snd (rounds_before weighted input j))) \<and> joins e s t \<longrightarrow>
            rounds_before weighted input (Suc j) =
              (fst (rounds_before weighted input j) @
                 [''Line '' @ show_nat (j + 1) @ '': Duplicate edge detected''],
               snd (rounds_before weighted input j)) \<and>
            ''Line '' @ show_nat (j + 1) @ '': Duplicate edge detected''
              \<in> set (errors (validateGraphInput input weighted)) \<and>
            \<not> isValid (validateGraphInput input weighted) \<and>
            length (filter (\<lambda>e'. joins e' s t) (edges (validateGraphInput input weighted))) = 1)"
proof (intro conjI allI impI)
  fix i a b w'
  assume h: "i < j \<and> validateEdgeInput (graph_lines input ! i) weighted = Valid a b w' \<and>
      ((s = a \<and> t = b) \<or> (s = b \<and> t = a))"
  then have i: "i < j"
    and li: "validateEdgeInput (graph_lines input ! i) weighted = Valid a b w'"
    and same: "(s = a \<and> t = b) \<or> (s = b \<and> t = a)"
    by simp_all
  have r: "rounds_before weighted input (Suc j) =
      (fst (rounds_before weighted input j) @
         [''Line '' @ show_nat (j + 1) @ '': Duplicate edge detected''],
       snd (rounds_before weighted input j))"
    using i assms(1) li assms(2) same by (rule repeated_line_round)
  then show "rounds_before weighted input (Suc j) =
      (fst (rounds_before weighted input j) @
         [''Line '' @ show_nat (j + 1) @ '': Duplicate edge detected''],
       snd (rounds_before weighted input j))" .
  from round_error_reported [OF assms(1) r]
  show "''Line '' @ show_nat (j + 1) @ '': Duplicate edge detected''
      \<in> set (errors (validateGraphInput input weighted))"
    and "\<not> isValid (validateGraphInput input weighted)"
    by simp_all
next
  fix e
  assume h: "e \<in> set (fst (snd (rounds_before weighted input j))) \<and> joins e s t"
  then have e: "e \<in> set (fst (snd (rounds_before weighted input j)))" and jn: "joins e s t"
    by simp_all
  show "rounds_before weighted input (Suc j) =
      (fst (rounds_before weighted input j) @
         [''Line '' @ show_nat (j + 1) @ '': Duplicate edge detected''],
       snd (rounds_before weighted input j))"
    using duplicate_round [OF assms e jn] .
  from duplicate_reported [OF assms e jn]
  show "''Line '' @ show_nat (j + 1) @ '': Duplicate edge detected''
      \<in> set (errors (validateGraphInput input weighted))"
    and "\<not> isValid (validateGraphInput input weighted)"
    and "length (filter (\<lambda>e'. joins e' s t) (edges (validateGraphInput input weighted))) = 1"
    by simp_all
qed

lemma two_lines:
  "graph_lines reversed_pair_input = [''a b'', ''b a'']"
  by code_simp

lemma ab_valid:
  "validateEdgeInput ''a b'' False = Valid ''a'' ''b'' None"
  "validateEdgeInput ''b a'' False = Valid ''b'' ''a'' None"
  by code_simp+

lemma two_lines_before_1:
  "rounds_before False reversed_pair_input 1 =
     ([], [\<lparr>source = ''a'', target = ''b'', weight = None\<rparr>], {''a-b''})"
  by code_simp

theorem duplicate_edge_rejected_witness:
  "graph_lines reversed_pair_input ! 1 = ''b a'' \<and>
   validateEdgeInput ''b a'' False = Valid ''b'' ''a'' None \<and>
   fst (snd (rounds_before False reversed_pair_input 1)) =
     [\<lparr>source = ''a'', target = ''b'', weight = None\<rparr>] \<and>
   joins \<lparr>source = ''a'', target = ''b'', weight = None\<rparr> ''b'' ''a'' \<and>
   validateGraphInput reversed_pair_input False =
     \<lparr>isValid = False, errors = [''Line 2: Duplicate edge detected''],
      edges = [\<lparr>source = ''a'', target = ''b'', weight = None\<rparr>]\<rparr>"
proof -
  have j: "1 < length (graph_lines reversed_pair_input)"
    by (simp add: two_lines)
  have l: "graph_lines reversed_pair_input ! 1 = ''b a''"
    unfolding two_lines by simp
  have v: "validateEdgeInput (graph_lines reversed_pair_input ! 1) False =
      Valid ''b'' ''a'' None"
    unfolding l by (rule ab_valid)
  have e: "\<lparr>source = ''a'', target = ''b'', weight = None\<rparr>
      \<in> set (fst (snd (rounds_before False reversed_pair_input 1)))"
    unfolding two_lines_before_1 by simp
  have jn: "joins \<lparr>source = ''a'', target = ''b'', weight = None\<rparr> ''b'' ''a''"
    by (simp add: joins_def)
  have whole: "validateGraphInput reversed_pair_input False =
     \<lparr>isValid = False, errors = [''Line 2: Duplicate edge detected''],
      edges = [\<lparr>source = ''a'', target = ''b'', weight = None\<rparr>]\<rparr>"
    by code_simp
  from duplicate_edge_rejected [OF j v] e jn
  have "\<not> isValid (validateGraphInput reversed_pair_input False)"
    by blast
  with l ab_valid(2) jn whole
  show ?thesis unfolding two_lines_before_1 by simp
qed

lemma parseAndValidateInput_invalid:
  assumes "\<not> isValid (validateGraphInput input weighted)"
  shows "parseAndValidateInput parseGraphInput input directed weighted st =
     st\<lparr>inputErrors := errors (validateGraphInput input weighted), isValidGraph := False,
        nodes := [], links := [], adjList := []\<rparr>"
  using assms by (simp add: parseAndValidateInput_def)

lemma two_members:
  assumes "x \<in> set l" "y \<in> set l" "x \<noteq> y"
  shows "1 < length l"
proof (cases l)
  case Nil
  with assms show ?thesis by simp
next
  case (Cons a l')
  with assms show ?thesis by (cases l') auto
qed

text \<open>
  Claim C9. \<open>validateGraphInput\<close> has no parameter for directedness, and
  \<open>parseAndValidateInput\<close> passes it none. So also for a directed graph
  (\<open>directed = true\<close>): when a valid line names \<open>s\<close> and \<open>t\<close> and an edge from \<open>t\<close> to \<open>s\<close>
  was accepted from an earlier line, the line is reported as a duplicate edge, the
  graph is marked invalid, the model is cleared without a call of the parser, and the
  edge from \<open>s\<close> to \<open>t\<close> is not among the validated edges.
\<close>

theorem reversed_edge_rejected_when_directed:
  fixes st :: "('l, 'a) graph_state"
  assumes "j < length (graph_lines input)"
    and "validateEdgeInput (graph_lines input ! j) weighted = Valid s t w"
    and "e \<in> set (fst (snd (rounds_before weighted input j)))"
    and "source e = t" and "target e = s"
  shows "''Line '' @ show_nat (j + 1) @ '': Duplicate edge detected''
           \<in> set (inputErrors (parseAndValidateInput parseGraphInput input True weighted st)) \<and>
         \<not> isValidGraph (parseAndValidateInput parseGraphInput input True weighted st) \<and>
         nodes (parseAndValidateInput parseGraphInput input True weighted st) = [] \<and>
         links (parseAndValidateInput parseGraphInput input True weighted st) = [] \<and>
         adjList (parseAndValidateInput parseGraphInput input True weighted st) = [] \<and>
         parserCalls (parseAndValidateInput parseGraphInput input True weighted st) =
           parserCalls st \<and>
         \<lparr>source = s, target = t, weight = w\<rparr>
           \<notin> set (edges (validateGraphInput input weighted))"
proof -
  have jn: "joins e s t"
    using assms(4,5) by (simp add: joins_def)
  note dup = duplicate_reported [OF assms(1-3) jn]
  note st' = parseAndValidateInput_invalid [OF dup(2), of parseGraphInput True st]
  let ?es = "edges (validateGraphInput input weighted)"
  have other: "\<lparr>source = s, target = t, weight = w\<rparr> \<notin> set ?es"
  proof
    assume new: "\<lparr>source = s, target = t, weight = w\<rparr> \<in> set ?es"
    from assms(1) have ne: "trim input \<noteq> []"
      using graph_lines_blank [of input] by auto
    from assms(1) have le: "j \<le> length (graph_lines input)" by simp
    from rounds_grow(2) [OF le order_refl, of weighted] assms(3)
    have old: "e \<in> set ?es"
      unfolding validateGraphInput_rounds [OF ne] by auto
    from assms(1-3) have "s \<noteq> t"
      by (auto simp: validateEdgeInput_def Let_def split: if_splits option.splits)
    with assms(4) have "source e \<noteq> source \<lparr>source = s, target = t, weight = w\<rparr>"
      by simp
    then have "e \<noteq> \<lparr>source = s, target = t, weight = w\<rparr>"
      by metis
    moreover from old new jn
    have "e \<in> set (filter (\<lambda>e'. joins e' s t) ?es)"
      "\<lparr>source = s, target = t, weight = w\<rparr> \<in> set (filter (\<lambda>e'. joins e' s t) ?es)"
      by (simp_all add: joins_def)
    ultimately have "1 < length (filter (\<lambda>e'. joins e' s t) ?es)"
      by (rule two_members [rotated 2])
    with dup(3) show False by simp
  qed
  from dup(1) other show ?thesis
    unfolding st' by simp
qed

theorem reversed_edge_rejected_when_directed_witness:
  "graph_lines reversed_pair_input = [''a b'', ''b a''] \<and>
   validateEdgeInput ''b a'' False = Valid ''b'' ''a'' None \<and>
   rounds_before False reversed_pair_input 1 =
     ([], [\<lparr>source = ''a'', target = ''b'', weight = None\<rparr>], {''a-b''}) \<and>
   parseAndValidateInput fixed_parser reversed_pair_input True False triangle_state =
     triangle_state\<lparr>inputErrors := [''Line 2: Duplicate edge detected''],
       isValidGraph := False, nodes := [], links := [], adjList := []\<rparr>"
proof -
  have j: "1 < length (graph_lines reversed_pair_input)"
    unfolding two_lines by simp
  have l: "graph_lines reversed_pair_input ! 1 = ''b a''"
    unfolding two_lines by simp
  have v: "validateEdgeInput (graph_lines reversed_pair_input ! 1) False =
      Valid ''b'' ''a'' None"
    unfolding l by (rule ab_valid)
  have e: "\<lparr>source = ''a'', target = ''b'', weight = None\<rparr>
      \<in> set (fst (snd (rounds_before False reversed_pair_input 1)))"
    unfolding two_lines_before_1 by simp
  have whole: "validateGraphInput reversed_pair_input False =
     \<lparr>isValid = False, errors = [''Line 2: Duplicate edge detected''],
      edges = [\<lparr>source = ''a'', target = ''b'', weight = None\<rparr>]\<rparr>"
    by code_simp
  from reversed_edge_rejected_when_directed [OF j v e, of fixed_parser triangle_state]
    two_lines ab_valid(2) two_lines_before_1 whole
  show ?thesis
    by (simp add: parseAndValidateInput_def)
qed

text \<open>
  The empty input has no line at all, so no line produces an error; still it is not
  valid.
\<close>

theorem empty_input_invalid_counterexample:
  "graph_lines [] = [] \<and> isValid (validateGraphInput [] False) = False"
  by code_simp

lemma errors_stay_empty:
  assumes "\<forall>j<length (graph_lines input).
      fst (rounds_before weighted input (Suc j)) = fst (rounds_before weighted input j)"
    and "k \<le> length (graph_lines input)"
  shows "fst (rounds_before weighted input k) = []"
  using assms(2)
proof (induction k)
  case 0
  show ?case by (simp add: rounds_before_0)
next
  case (Suc k)
  with assms(1) show ?case by simp
qed

lemma valid_iff_no_round_fails:
  assumes "trim input \<noteq> []"
  shows "isValid (validateGraphInput input weighted) \<longleftrightarrow>
     (\<forall>j<length (graph_lines input).
        fst (rounds_before weighted input (Suc j)) = fst (rounds_before weighted input j))"
proof
  let ?n = "length (graph_lines input)"
  assume "isValid (validateGraphInput input weighted)"
  then have fin: "fst (rounds_before weighted input ?n) = []"
    by (simp add: validateGraphInput_rounds [OF assms])
  have "fst (rounds_before weighted input k) = []" if "k \<le> ?n" for k
    using rounds_grow(1) [OF that order_refl, of weighted] fin by auto
  then show "\<forall>j<?n. fst (rounds_before weighted input (Suc j)) =
      fst (rounds_before weighted input j)"
    by simp
next
  assume "\<forall>j<length (graph_lines input).
      fst (rounds_before weighted input (Suc j)) = fst (rounds_before weighted input j)"
  from errors_stay_empty [OF this order_refl]
  show "isValid (validateGraphInput input weighted)"
    by (simp add: validateGraphInput_rounds [OF assms])
qed

text \<open>
  Claim C2, as amended. For an input that is not empty or all white space,
  \<open>validateGraphInput\<close> returns \<open>isValid = true\<close> if and only if no round of the loop
  adds an error, that is, no non-blank line produces one; an empty or all-white-space
  input is not valid. Whenever validation fails, \<open>parseAndValidateInput\<close> stores the
  errors, marks the graph invalid and empties \<open>nodes\<close>, \<open>links\<close> and \<open>adjList\<close>, and the
  parser is not called. After \<open>parseAndValidateInput\<close> the model is the parser's whole
  result when the graph is marked valid, and empty when it is not.
\<close>

theorem validation_all_or_nothing:
  fixes st :: "('l, 'a) graph_state"
  shows "(trim input \<noteq> [] \<longrightarrow>
      (isValid (validateGraphInput input weighted) \<longleftrightarrow>
         (\<forall>j<length (graph_lines input).
            fst (rounds_before weighted input (Suc j)) =
            fst (rounds_before weighted input j)))) \<and>
     (trim input = [] \<longrightarrow> \<not> isValid (validateGraphInput input weighted)) \<and>
     (\<not> isValid (validateGraphInput input weighted) \<longrightarrow>
        parseAndValidateInput parseGraphInput input directed weighted st =
          st\<lparr>inputErrors := errors (validateGraphInput input weighted), isValidGraph := False,
             nodes := [], links := [], adjList := []\<rparr> \<and>
        parserCalls (parseAndValidateInput parseGraphInput input directed weighted st) =
          parserCalls st) \<and>
     (isValidGraph (parseAndValidateInput parseGraphInput input directed weighted st) \<longrightarrow>
        (\<exists>g. parseGraphInput input directed weighted = Some g \<and>
           nodes (parseAndValidateInput parseGraphInput input directed weighted st) = nodes g \<and>
           links (parseAndValidateInput parseGraphInput input directed weighted st) = links g \<and>
           adjList (parseAndValidateInput parseGraphInput input directed weighted st) =
             adjList g)) \<and>
     (\<not> isValidGraph (parseAndValidateInput parseGraphInput input directed weighted st) \<longrightarrow>
        nodes (parseAndValidateInput parseGraphInput input directed weighted st) = [] \<and>
        links (parseAndValidateInput parseGraphInput input directed weighted st) = [] \<and>
        adjList (parseAndValidateInput parseGraphInput input directed weighted st) = [])"
proof -
  have a: "isValid (validateGraphInput input weighted) \<longleftrightarrow>
         (\<forall>j<length (graph_lines input).
            fst (rounds_before weighted input (Suc j)) =
            fst (rounds_before weighted input j))" if "trim input \<noteq> []"
    using that by (rule valid_iff_no_round_fails)
  have b: "\<not> isValid (validateGraphInput input weighted)" if "trim input = []"
    using that by (simp add: validateGraphInput_empty)
  have c: "parseAndValidateInput parseGraphInput input directed weighted st =
          st\<lparr>inputErrors := errors (validateGraphInput input weighted), isValidGraph := False,
             nodes := [], links := [], adjList := []\<rparr> \<and>
        parserCalls (parseAndValidateInput parseGraphInput input directed weighted st) =
          parserCalls st" if "\<not> isValid (validateGraphInput input weighted)"
    using that by (simp add: parseAndValidateInput_invalid)
  have d: "\<exists>g. parseGraphInput input directed weighted = Some g \<and>
           nodes (parseAndValidateInput parseGraphInput input directed weighted st) = nodes g \<and>
           links (parseAndValidateInput parseGraphInput input directed weighted st) = links g \<and>
           adjList (parseAndValidateInput parseGraphInput input directed weighted st) =
             adjList g"
    if "isValidGraph (parseAndValidateInput parseGraphInput input directed weighted st)"
    using that
    by (cases "parseGraphInput input directed weighted")
      (auto simp: parseAndValidateInput_def Let_def split: if_splits)
  have e: "nodes (parseAndValidateInput parseGraphInput input directed weighted st) = [] \<and>
        links (parseAndValidateInput parseGraphInput input directed weighted st) = [] \<and>
        adjList (parseAndValidateInput parseGraphInput input directed weighted st) = []"
    if "\<not> isValidGraph (parseAndValidateInput parseGraphInput input directed weighted st)"
    using that
    by (cases "parseGraphInput input directed weighted")
      (auto simp: parseAndValidateInput_def Let_def split: if_splits)
  from a b c d e show ?thesis
    by blast
qed

theorem validation_all_or_nothing_witness:
  "trim reversed_pair_input \<noteq> [] \<and>
   \<not> isValid (validateGraphInput reversed_pair_input False) \<and>
   fst (rounds_before False reversed_pair_input 2) = [''Line 2: Duplicate edge detected''] \<and>
   fst (rounds_before False reversed_pair_input 1) = [] \<and>
   parseAndValidateInput fixed_parser reversed_pair_input False False triangle_state =
     triangle_state\<lparr>inputErrors := [''Line 2: Duplicate edge detected''],
       isValidGraph := False, nodes := [], links := [], adjList := []\<rparr> \<and>
   parserCalls (parseAndValidateInput fixed_parser reversed_pair_input False False
     triangle_state) = []"
proof -
  have t: "trim reversed_pair_input \<noteq> []"
    by code_simp
  have whole: "validateGraphInput reversed_pair_input False =
     \<lparr>isValid = False, errors = [''Line 2: Duplicate edge detected''],
      edges = [\<lparr>source = ''a'', target = ''b'', weight = None\<rparr>]\<rparr>"
    by code_simp
  have r2: "fst (rounds_before False reversed_pair_input 2) =
      [''Line 2: Duplicate edge detected'']"
    by code_simp
  have r1: "fst (rounds_before False reversed_pair_input 1) = []"
    by code_simp
  have pc: "parserCalls triangle_state = []"
    by (simp add: triangle_state_def)
  from validation_all_or_nothing [of reversed_pair_input False fixed_parser False
      triangle_state] t whole r2 r1 pc
  show ?thesis by simp
qed

text \<open>
  Claim C7. For an empty or all-white-space input, \<open>validateGraphInput\<close> returns
  \<open>isValid = false\<close>, the single error \<open>EMPTY_GRAPH\<close> and no edges; and in the state the
  hook reaches on that input (by the input effect, or by \<open>parseAndValidateInput\<close>
  itself) \<open>canRunAlgorithm\<close> rejects every algorithm kind, with any source node, with
  the reason \<open>EMPTY_GRAPH\<close>.
\<close>

theorem empty_input_rejected:
  fixes st :: "('l, 'a) graph_state"
  assumes "blank input"
  shows "validateGraphInput input weighted =
           \<lparr>isValid = False, errors = [EMPTY_GRAPH], edges = []\<rparr> \<and>
         canRunAlgorithm kind src (handleInputChange parseGraphInput input st) =
           \<lparr>canRun = False, reason = Some EMPTY_GRAPH\<rparr> \<and>
         canRunAlgorithm kind src
             (parseAndValidateInput parseGraphInput input directed weighted st) =
           \<lparr>canRun = False, reason = Some EMPTY_GRAPH\<rparr>"
proof -
  from assms have t: "trim input = []"
    by (rule trim_blank)
  then have v: "validateGraphInput input weighted =
      \<lparr>isValid = False, errors = [EMPTY_GRAPH], edges = []\<rparr>"
    by (rule validateGraphInput_empty)
  then have "\<not> isValid (validateGraphInput input weighted)"
    by simp
  note p = parseAndValidateInput_invalid [OF this, of parseGraphInput directed st]
  show ?thesis
    unfolding p using v t
    by (simp add: canRunAlgorithm_def handleInputChange_def inputEffect_def)
qed

theorem empty_input_rejected_witness:
  "blank ([CHR '' '', LF, CHR '' '']) \<and>
   validateGraphInput [CHR '' '', LF, CHR '' ''] True =
     \<lparr>isValid = False, errors = [EMPTY_GRAPH], edges = []\<rparr> \<and>
   canRunAlgorithm ''dfs'' (Some ''A'')
       (handleInputChange fixed_parser [CHR '' '', LF, CHR '' ''] triangle_state) =
     \<lparr>canRun = False, reason = Some EMPTY_GRAPH\<rparr> \<and>
   canRunAlgorithm ''scc'' None
       (parseAndValidateInput fixed_parser [CHR '' '', LF, CHR '' ''] True True
          triangle_state) =
     \<lparr>canRun = False, reason = Some EMPTY_GRAPH\<rparr>"
proof -
  have b: "blank ([CHR '' '', LF, CHR '' ''])"
    by code_simp
  from empty_input_rejected [OF b, of True "''dfs''" "Some ''A''" fixed_parser triangle_state]
    empty_input_rejected [OF b, of True "''scc''" None fixed_parser triangle_state True] b
  show ?thesis by simp
qed

text \<open>
  Every non-blank line gives exactly one error or one edge.
\<close>

lemma one_outcome_per_line:
  assumes "trim input \<noteq> []"
  shows "length (errors (validateGraphInput input weighted)) +
         length (edges (validateGraphInput input weighted)) = length (graph_lines input)"
proof -
  obtain errs es ks where
    fin: "rounds_before weighted input (length (graph_lines input)) = (errs, es, ks)"
    by (cases "rounds_before weighted input (length (graph_lines input))") auto
  from rounds_invariant(3) [OF order_refl fin] fin show ?thesis
    by (simp add: validateGraphInput_rounds [OF assms])
qed

text \<open>
  Claim C8. The number in the label of an error is the position of the line among the
  non-blank lines, not its line number in the input text: in the input \<open>a b\<close>, blank
  line, \<open>a a\<close> the self-loop stands on the third line of the text and is reported as
  \<open>Line 2\<close>.
\<close>

theorem line_label_skips_blank_lines:
  "split LF blank_line_input = [''a b'', [], ''a a''] \<and>
   validateGraphInput blank_line_input False =
     \<lparr>isValid = False, errors = [''Line 2: Self-loops are not supported''],
      edges = [\<lparr>source = ''a'', target = ''b'', weight = None\<rparr>]\<rparr>"
  by code_simp

text \<open>
  The keys of \<open>edgeSet\<close> join the two identifiers with a hyphen, which an identifier may
  contain: the edges \<open>a-b\<close> to \<open>c\<close> and \<open>a\<close> to \<open>b-c\<close> have the same key, and the second
  is reported as a duplicate of the first.
\<close>

lemma hyphen_key_collision:
  "validateGraphInput hyphen_input False =
     \<lparr>isValid = False, errors = [''Line 2: Duplicate edge detected''],
      edges = [\<lparr>source = ''a-b'', target = ''c'', weight = None\<rparr>]\<rparr>"
  by code_simp

lemma one_outcome_per_line_example:
  "trim blank_line_input \<noteq> [] \<and>
   length (errors (validateGraphInput blank_line_input False)) +
   length (edges (validateGraphInput blank_line_input False)) = 2 \<and>
   length (graph_lines blank_line_input) = 2"
proof -
  have t: "trim blank_line_input \<noteq> []"
    by code_simp
  have n: "length (graph_lines blank_line_input) = 2"
    by code_simp
  from one_outcome_per_line [OF t, of False] t n show ?thesis
    by simp
qed

section \<open>Eligibility of an algorithm\<close>

text \<open>
  Claim C1. On a state with a valid graph that has a node, \<open>canRunAlgorithm\<close> gives the
  verdict of the eligibility table. For \<open>dfs\<close>, \<open>bfs\<close> and \<open>dijkstra\<close>: the missing-source
  reason when no source is given (\<open>null\<close> or the empty string), the
  source-does-not-exist reason when the source is the \<open>id\<close> of no node, and acceptance
  otherwise. For \<open>scc\<close>: rejection exactly when the graph is not directed. For \<open>prims\<close>
  and \<open>kruskals\<close>: rejection when the graph is directed, rejection when it is undirected
  and not weighted, acceptance otherwise. Every other kind is accepted.
\<close>

theorem canRunAlgorithm_table:
  fixes st :: "('l, 'a) graph_state"
  assumes "isValidGraph st" and "nodes st \<noteq> []"
  shows
    "(kind \<in> {''dfs'', ''bfs'', ''dijkstra''} \<longrightarrow>
        ((src = None \<or> src = Some []) \<longrightarrow>
           canRunAlgorithm kind src st = \<lparr>canRun = False, reason = Some MISSING_SOURCE\<rparr>) \<and>
        (\<forall>s. src = Some s \<and> s \<noteq> [] \<and> s \<notin> node_id ` set (nodes st) \<longrightarrow>
           canRunAlgorithm kind src st =
             \<lparr>canRun = False, reason = Some ''Source node does not exist in the graph''\<rparr>) \<and>
        (\<forall>s. src = Some s \<and> s \<noteq> [] \<and> s \<in> node_id ` set (nodes st) \<longrightarrow>
           canRunAlgorithm kind src st = \<lparr>canRun = True, reason = None\<rparr>)) \<and>
     (kind = ''scc'' \<longrightarrow>
        canRunAlgorithm kind src st =
          (if isDirected st then \<lparr>canRun = True, reason = None\<rparr>
           else \<lparr>canRun = False,
                 reason = Some ''Strongly Connected Components requires a directed graph''\<rparr>)) \<and>
     (kind \<in> {''prims'', ''kruskals''} \<longrightarrow>
        (isDirected st \<longrightarrow>
           canRunAlgorithm kind src st =
             \<lparr>canRun = False, reason = Some ''MST algorithms require an undirected graph''\<rparr>) \<and>
        (\<not> isDirected st \<and> \<not> isWeighted st \<longrightarrow>
           canRunAlgorithm kind src st =
             \<lparr>canRun = False, reason = Some ''MST algorithms require a weighted graph''\<rparr>) \<and>
        (\<not> isDirected st \<and> isWeighted st \<longrightarrow>
           canRunAlgorithm kind src st = \<lparr>canRun = True, reason = None\<rparr>)) \<and>
     (kind \<notin> {''dfs'', ''bfs'', ''dijkstra'', ''scc'', ''prims'', ''kruskals''} \<longrightarrow>
        canRunAlgorithm kind src st = \<lparr>canRun = True, reason = None\<rparr>)"
  using assms by (auto simp: canRunAlgorithm_def list_ex_iff)

theorem canRunAlgorithm_table_witness:
  "isValidGraph triangle_state \<and> nodes triangle_state \<noteq> [] \<and>
   canRunAlgorithm ''dfs'' None triangle_state =
     \<lparr>canRun = False, reason = Some MISSING_SOURCE\<rparr> \<and>
   canRunAlgorithm ''bfs'' (Some ''D'') triangle_state =
     \<lparr>canRun = False, reason = Some ''Source node does not exist in the graph''\<rparr> \<and>
   canRunAlgorithm ''dijkstra'' (Some ''A'') triangle_state = \<lparr>canRun = True, reason = None\<rparr> \<and>
   canRunAlgorithm ''scc'' None triangle_state =
     \<lparr>canRun = False,
      reason = Some ''Strongly Connected Components requires a directed graph''\<rparr> \<and>
   canRunAlgorithm ''prims'' None triangle_state =
     \<lparr>canRun = False, reason = Some ''MST algorithms require a weighted graph''\<rparr> \<and>
   canRunAlgorithm ''euler'' None triangle_state = \<lparr>canRun = True, reason = None\<rparr>"
proof -
  have v: "isValidGraph triangle_state" and n: "nodes triangle_state \<noteq> []"
    by (simp_all add: triangle_state_def)
  note t = canRunAlgorithm_table [OF v n]
  from t [of "''dfs''" None] t [of "''bfs''" "Some ''D''"] t [of "''dijkstra''" "Some ''A''"]
    t [of "''scc''" None] t [of "''prims''" None] t [of "''euler''" None] v n
  show ?thesis by (simp add: triangle_state_def)
qed

section \<open>Running an algorithm\<close>

text \<open>\<open>executeAlgorithm\<close> is its two halves, joined by the call of the algorithm function.\<close>

lemma executeAlgorithm_halves:
  "executeAlgorithm captured algorithmFn options st =
     (if captured then (Normal (), st) else run_settled options (algorithmFn (run_started st)))"
  by (simp add: executeAlgorithm_def run_settled_def run_started_def Let_def
      split: prod.splits completion.splits sum.splits)

text \<open>
  An algorithm function that returns normally with \<open>undefined\<close> (it has no result):
  \<open>resultReady\<close> stays false and \<open>result\<close> stays the empty string, since the result is
  stored only under \<open>if (algorithmResult)\<close>. And an algorithm function that throws
  while \<open>options\<close> is \<open>null\<close>: the \<open>catch\<close> block throws a \<open>TypeError\<close> on
  \<open>options.errorMessage\<close>, no message is stored, and the promise of
  \<open>executeAlgorithm\<close> is rejected.
\<close>

theorem executeAlgorithm_falsy_result_counterexample:
  "resultReady (snd (executeAlgorithm False (returning VUndefined) OptionsUndefined
      initial_exec_state)) = False \<and>
   result (snd (executeAlgorithm False (returning VUndefined) OptionsUndefined
      initial_exec_state)) = VString [] \<and>
   executeAlgorithm False (throwing (VError ''Error'')) OptionsNull initial_exec_state =
     (Throw (VError ''TypeError''), initial_exec_state)"
  by (simp add: executeAlgorithm_def returning_def throwing_def initial_exec_state_def
      error_message_def)

text \<open>
  Claim C5, as amended. \<open>executeAlgorithm\<close> is called through a callback whose guard
  lets it pass (it captured \<open>isRunning = false\<close>), and the algorithm function ends with
  completion \<open>c\<close> in state \<open>st'\<close>. If it returned a truthy value, that value is stored
  and \<open>resultReady\<close> is set; if it returned a falsy value, \<open>result\<close> and \<open>resultReady\<close>
  are left as they are; a return leaves \<open>error\<close> alone and \<open>executeAlgorithm\<close>
  completes normally. If it threw and \<open>options\<close> is not \<open>null\<close>, \<open>error\<close> is
  \<open>options.errorMessage\<close> when that is truthy and the generic algorithm-error message
  otherwise (also when \<open>options\<close> is missing), and \<open>executeAlgorithm\<close> completes
  normally: it does not throw; a throw leaves \<open>result\<close> and \<open>resultReady\<close> as they are.
  Whenever the function returned or threw, \<open>isRunning\<close> ends false and the speed signal
  is reset to the empty string.
\<close>

theorem executeAlgorithm_outcomes:
  assumes "algorithmFn (run_started st) = (c, st')"
  shows
    "(\<forall>v. c = Normal v \<and> truthy v \<longrightarrow>
        result (snd (executeAlgorithm False algorithmFn options st)) = v \<and>
        resultReady (snd (executeAlgorithm False algorithmFn options st))) \<and>
     (\<forall>v. c = Normal v \<and> \<not> truthy v \<longrightarrow>
        result (snd (executeAlgorithm False algorithmFn options st)) = result st' \<and>
        resultReady (snd (executeAlgorithm False algorithmFn options st)) = resultReady st') \<and>
     (\<forall>v. c = Normal v \<longrightarrow>
        error (snd (executeAlgorithm False algorithmFn options st)) = error st' \<and>
        fst (executeAlgorithm False algorithmFn options st) = Normal ()) \<and>
     (\<forall>e opts. c = Throw e \<and> options = OptionsObject opts \<and> truthy (errorMessage opts) \<longrightarrow>
        error (snd (executeAlgorithm False algorithmFn options st)) = errorMessage opts) \<and>
     (\<forall>e opts. c = Throw e \<and> options = OptionsObject opts \<and> \<not> truthy (errorMessage opts) \<longrightarrow>
        error (snd (executeAlgorithm False algorithmFn options st)) = VString ALGORITHM_ERROR) \<and>
     (\<forall>e. c = Throw e \<and> options = OptionsUndefined \<longrightarrow>
        error (snd (executeAlgorithm False algorithmFn options st)) = VString ALGORITHM_ERROR) \<and>
     (\<forall>e. c = Throw e \<longrightarrow>
        result (snd (executeAlgorithm False algorithmFn options st)) = result st' \<and>
        resultReady (snd (executeAlgorithm False algorithmFn options st)) = resultReady st') \<and>
     (\<forall>e. c = Throw e \<and> options \<noteq> OptionsNull \<longrightarrow>
        fst (executeAlgorithm False algorithmFn options st) = Normal ()) \<and>
     (c \<noteq> Pending \<longrightarrow>
        \<not> isRunning (snd (executeAlgorithm False algorithmFn options st)) \<and>
        speedrunRef (snd (executeAlgorithm False algorithmFn options st)) = []) \<and>
     (options \<noteq> OptionsNull \<longrightarrow>
        (\<forall>e. fst (executeAlgorithm False algorithmFn options st) \<noteq> Throw e))"
  using assms
  by (cases c; cases options)
    (auto simp: executeAlgorithm_halves run_settled_def error_message_def)

theorem executeAlgorithm_outcomes_witness:
  "executeAlgorithm False (returning (VString ''A B C'')) OptionsUndefined initial_exec_state =
     (Normal (), initial_exec_state\<lparr>result := VString ''A B C'', resultReady := True\<rparr>) \<and>
   OptionsObject \<lparr>errorMessage = VString ''DFS failed''\<rparr> \<noteq> OptionsNull \<and>
   truthy (VString ''DFS failed'') \<and>
   executeAlgorithm False (throwing (VError ''Error''))
       (OptionsObject \<lparr>errorMessage = VString ''DFS failed''\<rparr>)
       (initial_exec_state\<lparr>speedrunRef := ''fast''\<rparr>) =
     (Normal (), initial_exec_state\<lparr>error := VString ''DFS failed''\<rparr>) \<and>
   OptionsObject \<lparr>errorMessage = VString []\<rparr> \<noteq> OptionsNull \<and>
   \<not> truthy (VString []) \<and>
   executeAlgorithm False (throwing (VError ''Error''))
       (OptionsObject \<lparr>errorMessage = VString []\<rparr>) initial_exec_state =
     (Normal (), initial_exec_state\<lparr>error := VString ALGORITHM_ERROR\<rparr>) \<and>
   \<not> truthy (VNumber (Num 0)) \<and>
   executeAlgorithm False (returning (VNumber (Num 0))) OptionsUndefined
       (initial_exec_state\<lparr>speedrunRef := ''fast''\<rparr>) =
     (Normal (), initial_exec_state)"
proof -
  have r: "returning (VString ''A B C'') (run_started initial_exec_state) =
      (Normal (VString ''A B C''), run_started initial_exec_state)"
    by (simp add: returning_def)
  have t: "throwing (VError ''Error'')
        (run_started (initial_exec_state\<lparr>speedrunRef := ''fast''\<rparr>)) =
      (Throw (VError ''Error''), run_started (initial_exec_state\<lparr>speedrunRef := ''fast''\<rparr>))"
    by (simp add: throwing_def)
  have u: "throwing (VError ''Error'') (run_started initial_exec_state) =
      (Throw (VError ''Error''), run_started initial_exec_state)"
    by (simp add: throwing_def)
  have z: "returning (VNumber (Num 0))
        (run_started (initial_exec_state\<lparr>speedrunRef := ''fast''\<rparr>)) =
      (Normal (VNumber (Num 0)), run_started (initial_exec_state\<lparr>speedrunRef := ''fast''\<rparr>))"
    by (simp add: returning_def)
  from executeAlgorithm_outcomes [where st = initial_exec_state
        and algorithmFn = "returning (VString ''A B C'')"
        and c = "Normal (VString ''A B C'')" and st' = "run_started initial_exec_state"
        and options = OptionsUndefined, OF r]
    executeAlgorithm_outcomes [where st = "initial_exec_state\<lparr>speedrunRef := ''fast''\<rparr>"
        and algorithmFn = "throwing (VError ''Error'')" and c = "Throw (VError ''Error'')"
        and st' = "run_started (initial_exec_state\<lparr>speedrunRef := ''fast''\<rparr>)"
        and options = "OptionsObject \<lparr>errorMessage = VString ''DFS failed''\<rparr>", OF t]
    executeAlgorithm_outcomes [where st = initial_exec_state
        and algorithmFn = "throwing (VError ''Error'')" and c = "Throw (VError ''Error'')"
        and st' = "run_started initial_exec_state"
        and options = "OptionsObject \<lparr>errorMessage = VString []\<rparr>", OF u]
    executeAlgorithm_outcomes [where st = "initial_exec_state\<lparr>speedrunRef := ''fast''\<rparr>"
        and algorithmFn = "returning (VNumber (Num 0))" and c = "Normal (VNumber (Num 0))"
        and st' = "run_started (initial_exec_state\<lparr>speedrunRef := ''fast''\<rparr>)"
        and options = OptionsUndefined, OF z]
  show ?thesis
    by (simp add: executeAlgorithm_def returning_def throwing_def initial_exec_state_def
        error_message_def)
qed








end
